theory Spec2Isabelle
  imports Main "HOL-Library.Word"
begin

section \<open>JavaScript string primitives used by the sources\<close>

text \<open>
  A string is the list of the bytes of its UTF-8 encoding, one \<^typ>\<open>char\<close> per byte.
  Every marker the sources look for is ASCII, so \<open>startsWith\<close>, \<open>substring\<close> behind
  such a marker, \<open>split('\n')\<close> and comparison with a literal act on the bytes as they
  act on the characters.  Literals of the sources that are not ASCII are written as
  their bytes.
\<close>

definition startsWith :: "string \<Rightarrow> string \<Rightarrow> bool" where
  "startsWith s p = (take (length p) s = p)"

definition substring :: "string \<Rightarrow> nat \<Rightarrow> string" where
  "substring s n = drop n s"

text \<open>\<open>s.split('\n')\<close>: the pieces between line feeds; the empty string gives one empty piece.\<close>

fun split_nl :: "string \<Rightarrow> string list" where
  "split_nl [] = [[]]"
| "split_nl (c # cs) =
     (if c = CHR 0x0A then [] # split_nl cs
      else (case split_nl cs of [] \<Rightarrow> [[c]] | l # ls \<Rightarrow> (c # l) # ls))"

text \<open>
  The character class \<open>\s\<close> of a JavaScript regular expression, as the encodings of
  its members: U+0009 to U+000D, U+0020, U+00A0, U+1680, U+2000 to U+200A, U+2028,
  U+2029, U+202F, U+205F, U+3000 and U+FEFF.
\<close>

definition white_space :: "string list" where
  "white_space =
     [[CHR 0x09], [CHR 0x0A], [CHR 0x0B], [CHR 0x0C], [CHR 0x0D], [CHR 0x20],
      [CHR 0xC2, CHR 0xA0],
      [CHR 0xE1, CHR 0x9A, CHR 0x80],
      [CHR 0xE2, CHR 0x80, CHR 0x80], [CHR 0xE2, CHR 0x80, CHR 0x81],
      [CHR 0xE2, CHR 0x80, CHR 0x82], [CHR 0xE2, CHR 0x80, CHR 0x83],
      [CHR 0xE2, CHR 0x80, CHR 0x84], [CHR 0xE2, CHR 0x80, CHR 0x85],
      [CHR 0xE2, CHR 0x80, CHR 0x86], [CHR 0xE2, CHR 0x80, CHR 0x87],
      [CHR 0xE2, CHR 0x80, CHR 0x88], [CHR 0xE2, CHR 0x80, CHR 0x89],
      [CHR 0xE2, CHR 0x80, CHR 0x8A],
      [CHR 0xE2, CHR 0x80, CHR 0xA8], [CHR 0xE2, CHR 0x80, CHR 0xA9],
      [CHR 0xE2, CHR 0x80, CHR 0xAF],
      [CHR 0xE2, CHR 0x81, CHR 0x9F],
      [CHR 0xE3, CHR 0x80, CHR 0x80],
      [CHR 0xEF, CHR 0xBB, CHR 0xBF]]"

text \<open>The number of bytes of the white space character that \<open>s\<close> starts with, or 0.\<close>

definition space_width :: "string \<Rightarrow> nat" where
  "space_width s =
     (case find (startsWith s) white_space of None \<Rightarrow> 0 | Some w \<Rightarrow> length w)"

text \<open>The character class \<open>\d\<close>: the ASCII digits.\<close>

definition is_digit :: "char \<Rightarrow> bool" where
  "is_digit c = (c \<in> set ''0123456789'')"

definition digit_val :: "char \<Rightarrow> nat" where
  "digit_val c = of_char c - 48"

section \<open>JavaScript numbers\<close>

text \<open>
  A JavaScript number is a double.  The numbers of the diff parser come from
  \<open>parseInt\<close> on a run of decimal digits, from \<open>++\<close> and from one sum: they are
  the doubles whose value is a natural number, and \<open>Infinity\<close>.  \<open>Fin n\<close> is the double
  of value \<open>n\<close>.  Lengths and indices of arrays stay below \<open>2^32\<close> and are natural
  numbers.
\<close>

datatype jsnum = Fin nat | Infinity

text \<open>The number of binary digits of \<open>n\<close>.\<close>

function bit_width :: "nat \<Rightarrow> nat" where
  "bit_width n = (if n = 0 then 0 else Suc (bit_width (n div 2)))"
  by pat_completeness auto
termination
  by (relation "measure id") auto

declare bit_width.simps [simp del]

text \<open>
  The double nearest to the natural number \<open>n\<close>, ties to the even significand.  A number
  of at most 53 binary digits is a double.  Otherwise \<open>e\<close> digits are cut off to leave
  the 53 digits \<open>q\<close> of the significand, and the rest \<open>r\<close> decides the direction; a
  result of more than 1024 digits (at least \<open>2^1024\<close>) is \<open>Infinity\<close>.
\<close>

definition round_double :: "nat \<Rightarrow> jsnum" where
  "round_double n =
     (if bit_width n \<le> 53 then Fin n
      else
        (let e = bit_width n - 53;
             q = n div 2 ^ e;
             r = n mod 2 ^ e;
             half = 2 ^ (e - 1);
             m = (if half < r \<or> (r = half \<and> q mod 2 = 1) then q + 1 else q)
         in if 1024 < bit_width (m * 2 ^ e) then Infinity else Fin (m * 2 ^ e)))"

text \<open>\<open>a + b\<close>: the exact sum, rounded.\<close>

definition js_add :: "jsnum \<Rightarrow> jsnum \<Rightarrow> jsnum" where
  "js_add a b =
     (case a of
        Infinity \<Rightarrow> Infinity
      | Fin x \<Rightarrow> (case b of Infinity \<Rightarrow> Infinity | Fin y \<Rightarrow> round_double (x + y)))"

text \<open>The new value of \<open>a\<close> after \<open>a++\<close>.\<close>

definition js_inc :: "jsnum \<Rightarrow> jsnum" where
  "js_inc a = js_add a (Fin 1)"

text \<open>\<open>a < b\<close>.\<close>

definition js_less :: "jsnum \<Rightarrow> jsnum \<Rightarrow> bool" where
  "js_less a b =
     (case a of
        Infinity \<Rightarrow> False
      | Fin x \<Rightarrow> (case b of Infinity \<Rightarrow> True | Fin y \<Rightarrow> x < y))"

text \<open>
  \<open>parseInt\<close> on a string of decimal digits: the double nearest to the number that the
  digits write (the engine of Node rounds correctly whatever the length of the string).
\<close>

definition digits_value :: "string \<Rightarrow> nat" where
  "digits_value s = foldl (\<lambda>n c. 10 * n + digit_val c) 0 s"

definition parseInt :: "string \<Rightarrow> jsnum" where
  "parseInt s = round_double (digits_value s)"

section \<open>The diff parser (GitHubService)\<close>

subsection \<open>Data\<close>

datatype file_status = Modified | Added | Deleted

datatype change_type = Add | Del | Normal

text \<open>\<open>currentFile\<close>: \<open>{oldFilePath, newFilePath, fileStatus}\<close>.\<close>

record file_info =
  f_oldFilePath :: "string option"
  f_newFilePath :: "string option"
  f_fileStatus :: file_status

text \<open>The \<open>change\<close> objects pushed onto \<open>currentHunk.changes\<close>; \<open>None\<close> is \<open>null\<close>.\<close>

record change =
  c_type :: change_type
  c_content :: string
  c_oldLineNumber :: "jsnum option"
  c_newLineNumber :: "jsnum option"

text \<open>\<open>currentHunk\<close>.\<close>

record hunk =
  h_oldStartLine :: jsnum
  h_oldLines :: jsnum
  h_newStartLine :: jsnum
  h_newLines :: jsnum
  h_changes :: "change list"

text \<open>The flattened per-change view that \<open>createChunk\<close> emits.\<close>

record flat_change =
  fc_type :: change_type
  lineNumber :: jsnum
  fc_content :: string
  fc_oldLineNumber :: "jsnum option"
  fc_newLineNumber :: "jsnum option"

record hunk_context =
  addedLines :: "string list"
  deletedLines :: "string list"
  contextLines :: "string list"
  totalChanges :: nat
  isSignificant :: bool

datatype review_status = Pending | Reviewed | Failed

record chunk =
  oldFilePath :: "string option"
  newFilePath :: "string option"
  fileStatus :: file_status
  oldStartLine :: jsnum
  oldLines :: jsnum
  newStartLine :: jsnum
  newLines :: jsnum
  changes :: "flat_change list"
  chunk_context :: hunk_context
  aiComments :: "string list"
  reviewStatus :: review_status

subsection \<open>extractHunkContext and createChunk\<close>

definition extractHunkContext :: "change list \<Rightarrow> hunk_context" where
  "extractHunkContext cs =
     (let added = map c_content (filter (\<lambda>c. c_type c = Add) cs);
          deleted = map c_content (filter (\<lambda>c. c_type c = Del) cs);
          ctx = map c_content (filter (\<lambda>c. c_type c = Normal) cs)
      in \<lparr> addedLines = added,
           deletedLines = deleted,
           contextLines = ctx,
           totalChanges = length added + length deleted,
           isSignificant = (length added + length deleted > 5) \<rparr>)"

text \<open>
  \<open>a || b\<close> on a line number \<open>a\<close> that is a number or \<open>null\<close>: \<open>a\<close> when it is truthy,
  that is neither \<open>null\<close> nor \<open>0\<close>; otherwise \<open>b\<close>.  (\<open>NaN\<close> does not arise.)
\<close>

definition or_else :: "jsnum option \<Rightarrow> jsnum \<Rightarrow> jsnum" where
  "or_else a b = (case a of None \<Rightarrow> b | Some n \<Rightarrow> if n = Fin 0 then b else n)"

definition flatten_change :: "hunk \<Rightarrow> nat \<times> change \<Rightarrow> flat_change" where
  "flatten_change h ic =
     (case ic of (index, c) \<Rightarrow>
        \<lparr> fc_type = c_type c,
          lineNumber = or_else (c_newLineNumber c)
                         (or_else (c_oldLineNumber c)
                            (js_add (h_newStartLine h) (Fin index))),
          fc_content = c_content c,
          fc_oldLineNumber = c_oldLineNumber c,
          fc_newLineNumber = c_newLineNumber c \<rparr>)"

definition createChunk :: "file_info \<Rightarrow> hunk \<Rightarrow> chunk" where
  "createChunk file h =
     \<lparr> oldFilePath = f_oldFilePath file,
       newFilePath = f_newFilePath file,
       fileStatus = f_fileStatus file,
       oldStartLine = h_oldStartLine h,
       oldLines = h_oldLines h,
       newStartLine = h_newStartLine h,
       newLines = h_newLines h,
       changes = map (flatten_change h) (enumerate 0 (h_changes h)),
       chunk_context = extractHunkContext (h_changes h),
       aiComments = [],
       reviewStatus = Pending \<rparr>"

subsection \<open>The hunk header pattern\<close>

text \<open>
  \<open>/^@@\s+-(\d+)(?:,(\d+))?\s+\+(\d+)(?:,(\d+))?\s+@@/\<close>, matched from left to right.
  No piece of the pattern can give characters back to the next one (a run of \<open>\s\<close> is
  followed by a non-space, a run of \<open>\d\<close> by a non-digit), so the greedy match is the
  only one.  The result holds the four groups; an optional group that did not take part
  is \<open>None\<close>.
\<close>

definition match_lit :: "string \<Rightarrow> string \<Rightarrow> string option" where
  "match_lit p s = (if startsWith s p then Some (drop (length p) s) else None)"

text \<open>\<open>\s+\<close>: at least one white space character, then as many as follow.\<close>

function skip_spaces :: "string \<Rightarrow> string" where
  "skip_spaces s =
     (if space_width s = 0 then s else skip_spaces (drop (space_width s) s))"
  by pat_completeness auto
termination
proof (relation "measure length")
  show "wf (measure length)" by simp
next
  fix s :: string
  assume "space_width s \<noteq> 0"
  then have "s \<noteq> []"
    by (auto simp: space_width_def startsWith_def white_space_def)
  with \<open>space_width s \<noteq> 0\<close> show "(drop (space_width s) s, s) \<in> measure length"
    by simp
qed

declare skip_spaces.simps [simp del]

definition match_spaces :: "string \<Rightarrow> string option" where
  "match_spaces s = (if space_width s = 0 then None else Some (skip_spaces s))"

definition match_digits :: "string \<Rightarrow> (string \<times> string) option" where
  "match_digits s =
     (if takeWhile is_digit s = [] then None
      else Some (takeWhile is_digit s, dropWhile is_digit s))"

definition match_opt_count :: "string \<Rightarrow> string option \<times> string" where
  "match_opt_count s =
     (case match_lit '','' s of
        None \<Rightarrow> (None, s)
      | Some r \<Rightarrow> (case match_digits r of None \<Rightarrow> (None, s) | Some (d, r') \<Rightarrow> (Some d, r')))"

definition match_range :: "string \<Rightarrow> string \<Rightarrow> ((string \<times> string option) \<times> string) option" where
  "match_range sign s =
     (case match_lit sign s of
        None \<Rightarrow> None
      | Some r1 \<Rightarrow>
         (case match_digits r1 of
            None \<Rightarrow> None
          | Some (start, r2) \<Rightarrow>
             (case match_opt_count r2 of (cnt, r3) \<Rightarrow> Some ((start, cnt), r3))))"

definition hunkMatch :: "string \<Rightarrow> (string \<times> string option \<times> string \<times> string option) option" where
  "hunkMatch line =
     (case match_lit ''@@'' line of None \<Rightarrow> None | Some r0 \<Rightarrow>
      case match_spaces r0 of None \<Rightarrow> None | Some r1 \<Rightarrow>
      case match_range ''-'' r1 of None \<Rightarrow> None | Some ((g1, g2), r2) \<Rightarrow>
      case match_spaces r2 of None \<Rightarrow> None | Some r3 \<Rightarrow>
      case match_range ''+'' r3 of None \<Rightarrow> None | Some ((g3, g4), r4) \<Rightarrow>
      case match_spaces r4 of None \<Rightarrow> None | Some r5 \<Rightarrow>
      case match_lit ''@@'' r5 of None \<Rightarrow> None | Some r6 \<Rightarrow>
        Some (g1, g2, g3, g4))"

text \<open>\<open>parseInt(g || '1')\<close> for an optional group: a group that took part is never empty.\<close>

definition count_of :: "string option \<Rightarrow> jsnum" where
  "count_of g = (case g of None \<Rightarrow> parseInt ''1'' | Some d \<Rightarrow> parseInt d)"

subsection \<open>parseDiffToChunks\<close>

text \<open>The local variables of the loop over the lines.\<close>

record pstate =
  chunks :: "chunk list"
  currentFile :: "file_info option"
  currentHunk :: "hunk option"
  oldLineNumber :: jsnum
  newLineNumber :: jsnum

definition init_state :: pstate where
  "init_state = \<lparr> chunks = [], currentFile = None, currentHunk = None,
                  oldLineNumber = Fin 0, newLineNumber = Fin 0 \<rparr>"

text \<open>\<open>if (currentHunk && currentFile) chunks.push(this.createChunk(currentFile, currentHunk))\<close>\<close>

definition flush :: "pstate \<Rightarrow> chunk list" where
  "flush st =
     (case currentHunk st of
        None \<Rightarrow> chunks st
      | Some h \<Rightarrow> (case currentFile st of
                    None \<Rightarrow> chunks st
                  | Some f \<Rightarrow> chunks st @ [createChunk f h]))"

definition old_path_line :: "file_info \<Rightarrow> string \<Rightarrow> file_info" where
  "old_path_line f path =
     (if path = ''/dev/null'' then f\<lparr>f_oldFilePath := None, f_fileStatus := Added\<rparr>
      else if startsWith path ''a/'' then f\<lparr>f_oldFilePath := Some (substring path 2)\<rparr>
      else f\<lparr>f_oldFilePath := Some path\<rparr>)"

definition new_path_line :: "file_info \<Rightarrow> string \<Rightarrow> file_info" where
  "new_path_line f path =
     (if path = ''/dev/null'' then f\<lparr>f_newFilePath := None, f_fileStatus := Deleted\<rparr>
      else if startsWith path ''b/'' then f\<lparr>f_newFilePath := Some (substring path 2)\<rparr>
      else f\<lparr>f_newFilePath := Some path\<rparr>)"

definition line_type :: "string \<Rightarrow> change_type" where
  "line_type line =
     (if startsWith line ''+'' then Add else if startsWith line ''-'' then Del else Normal)"

text \<open>The code line branch: the change is pushed and the counters move.\<close>

definition code_line :: "pstate \<Rightarrow> hunk \<Rightarrow> string \<Rightarrow> pstate" where
  "code_line st h line =
     (let type = line_type line;
          ch = \<lparr> c_type = type,
                 c_content = substring line 1,
                 c_oldLineNumber = (if type \<noteq> Add then Some (oldLineNumber st) else None),
                 c_newLineNumber = (if type \<noteq> Del then Some (newLineNumber st) else None) \<rparr>
      in st\<lparr> currentHunk := Some (h\<lparr>h_changes := h_changes h @ [ch]\<rparr>),
             oldLineNumber :=
               (if type \<noteq> Add then js_inc (oldLineNumber st) else oldLineNumber st),
             newLineNumber :=
               (if type \<noteq> Del then js_inc (newLineNumber st) else newLineNumber st) \<rparr>)"

text \<open>One iteration of the loop: the \<open>if\<close> / \<open>else if\<close> chain on the line.\<close>

definition step :: "pstate \<Rightarrow> string \<Rightarrow> pstate" where
  "step st line =
     (if startsWith line ''diff --git '' then
        st\<lparr> chunks := flush st,
            currentFile := Some \<lparr> f_oldFilePath = None, f_newFilePath = None,
                                  f_fileStatus = Modified \<rparr>,
            currentHunk := None \<rparr>
      else if startsWith line ''--- '' then
        (case currentFile st of
           None \<Rightarrow> st
         | Some f \<Rightarrow> st\<lparr>currentFile := Some (old_path_line f (substring line 4))\<rparr>)
      else if startsWith line ''+++ '' then
        (case currentFile st of
           None \<Rightarrow> st
         | Some f \<Rightarrow> st\<lparr>currentFile := Some (new_path_line f (substring line 4))\<rparr>)
      else if startsWith line ''@@'' then
        (case hunkMatch line of
           None \<Rightarrow> st\<lparr>chunks := flush st\<rparr>
         | Some (g1, g2, g3, g4) \<Rightarrow>
             st\<lparr> chunks := flush st,
                 currentHunk := Some \<lparr> h_oldStartLine = parseInt g1,
                                       h_oldLines = count_of g2,
                                       h_newStartLine = parseInt g3,
                                       h_newLines = count_of g4,
                                       h_changes = [] \<rparr>,
                 oldLineNumber := parseInt g1,
                 newLineNumber := parseInt g3 \<rparr>)
      else
        (case currentHunk st of
           None \<Rightarrow> st
         | Some h \<Rightarrow>
             if startsWith line ''+'' \<or> startsWith line ''-'' \<or> startsWith line '' ''
             then code_line st h line
             else st))"

text \<open>
  The whole function.  Its argument is a string, so nothing in the \<open>try\<close> block can
  throw and the \<open>catch\<close> branch (which returns the empty array) is not taken.
\<close>

definition parse_lines :: "string list \<Rightarrow> chunk list" where
  "parse_lines ls = flush (foldl step init_state ls)"

definition parseDiffToChunks :: "string \<Rightarrow> chunk list" where
  "parseDiffToChunks diffText = parse_lines (split_nl diffText)"


section \<open>The webhook signature middleware and the router\<close>

subsection \<open>Requests and responses\<close>

datatype json = JNull | JBool bool | JNum int | JStr string | JArr "json list"
  | JObj "(string \<times> json) list"

text \<open>
  What the middleware and the route read of \<open>req\<close>: the two headers (\<open>None\<close> when the
  header is absent) and the raw body that \<open>express.raw\<close> leaves in \<open>req.body\<close>.
\<close>

record request =
  x_hub_signature_256 :: "string option"
  x_github_event :: "string option"
  body :: string

text \<open>\<open>res.status(s).json(obj)\<close>: the status and the members of the object.\<close>

record response =
  status :: nat
  members :: "(string \<times> json) list"

text \<open>A middleware either answers or hands the request on with \<open>next()\<close>.\<close>

datatype verdict = Next | Reply response

text \<open>The literals of the two sources, in the order in which they appear there.\<close>

definition msg_unauthorized :: string where
  "msg_unauthorized = [CHR 0xE6, CHR 0x9C, CHR 0xAA, CHR 0xE6, CHR 0x8E, CHR 0x88, CHR 0xE6, CHR 0x9D, CHR 0x83]"

definition msg_missing_signature :: string where
  "msg_missing_signature =
     [CHR 0xE7, CHR 0xBC, CHR 0xBA, CHR 0xE5, CHR 0xB0, CHR 0x91] @ ''GitHub'' @
     [CHR 0xE7, CHR 0xAD, CHR 0xBE, CHR 0xE5, CHR 0x90, CHR 0x8D]"

definition msg_signature_failed :: string where
  "msg_signature_failed =
     [CHR 0xE7, CHR 0xAD, CHR 0xBE, CHR 0xE5, CHR 0x90, CHR 0x8D, CHR 0xE9, CHR 0xAA, CHR 0x8C,
      CHR 0xE8, CHR 0xAF, CHR 0x81, CHR 0xE5, CHR 0xA4, CHR 0xB1, CHR 0xE8, CHR 0xB4, CHR 0xA5]"

definition msg_internal_error :: string where
  "msg_internal_error =
     [CHR 0xE5, CHR 0x86, CHR 0x85, CHR 0xE9, CHR 0x83, CHR 0xA8, CHR 0xE6, CHR 0x9C, CHR 0x8D,
      CHR 0xE5, CHR 0x8A, CHR 0xA1, CHR 0xE5, CHR 0x99, CHR 0xA8, CHR 0xE9, CHR 0x94, CHR 0x99,
      CHR 0xE8, CHR 0xAF, CHR 0xAF]"

definition msg_webhook_received :: string where
  "msg_webhook_received =
     ''Webhook'' @ [CHR 0xE6, CHR 0x8E, CHR 0xA5, CHR 0xE6, CHR 0x94, CHR 0xB6, CHR 0xE6, CHR 0x88,
                    CHR 0x90, CHR 0xE5, CHR 0x8A, CHR 0x9F, CHR 0xEF, CHR 0xBC, CHR 0x81]"

definition msg_event_not_handled :: "string \<Rightarrow> string" where
  "msg_event_not_handled eventType =
     [CHR 0xE4, CHR 0xBA, CHR 0x8B, CHR 0xE4, CHR 0xBB, CHR 0xB6] @ '' '' @ eventType @ '' '' @
     [CHR 0xE5, CHR 0xB7, CHR 0xB2, CHR 0xE6, CHR 0x8E, CHR 0xA5, CHR 0xE6, CHR 0x94, CHR 0xB6,
      CHR 0xE4, CHR 0xBD, CHR 0x86, CHR 0xE6, CHR 0x9C, CHR 0xAA, CHR 0xE5, CHR 0xA4, CHR 0x84,
      CHR 0xE7, CHR 0x90, CHR 0x86]"

subsection \<open>verifyGitHubSignature\<close>

text \<open>
  \<open>digest('hex')\<close> of a 32 byte digest: 64 lower case hexadecimal digits, the most
  significant first.  The keyed hash itself belongs to the \<open>crypto\<close> module and is a
  parameter \<open>hmac secret body\<close> of the model.
\<close>

definition hex_digit :: "nat \<Rightarrow> char" where
  "hex_digit n = ''0123456789abcdef'' ! (n mod 16)"

definition digest_hex :: "256 word \<Rightarrow> string" where
  "digest_hex w = map (\<lambda>i. hex_digit (unat w div 16 ^ i)) (rev [0..<64])"

text \<open>
  \<open>crypto.timingSafeEqual(a, b)\<close> throws a \<open>RangeError\<close> when the two buffers differ in
  byte length, and compares them otherwise.  \<open>Buffer.from(s, 'utf8')\<close> is the list of
  bytes itself.
\<close>

datatype js_error = RangeError

definition timingSafeEqual :: "string \<Rightarrow> string \<Rightarrow> js_error + bool" where
  "timingSafeEqual a b = (if length a \<noteq> length b then Inl RangeError else Inr (a = b))"

text \<open>\<open>!v\<close> for a value that is a string or \<open>undefined\<close>.\<close>

definition falsy :: "string option \<Rightarrow> bool" where
  "falsy v = (case v of None \<Rightarrow> True | Some s \<Rightarrow> s = [])"

text \<open>The string that a value is, once \<open>!v\<close> has been ruled out.\<close>

definition string_of :: "string option \<Rightarrow> string" where
  "string_of v = (case v of None \<Rightarrow> [] | Some s \<Rightarrow> s)"

text \<open>
  What the middleware writes to the console, in order: the method of \<open>console\<close>, the
  text, and the error object where one is printed after the text.
\<close>

datatype console_line =
    Console_warn string
  | Console_error string
  | Console_error_with string js_error
  | Console_log string

definition log_no_secret :: string where
  "log_no_secret =
     [CHR 0xE2, CHR 0x9A, CHR 0xA0, CHR 0xEF, CHR 0xB8, CHR 0x8F] @
     ''  '' @
     [CHR 0xE8, CHR 0xAD, CHR 0xA6, CHR 0xE5, CHR 0x91, CHR 0x8A] @
     '': '' @
     [CHR 0xE6, CHR 0x9C, CHR 0xAA, CHR 0xE8, CHR 0xAE, CHR 0xBE, CHR 0xE7, CHR 0xBD,
      CHR 0xAE] @
     ''GITHUB_WEBHOOK_SECRET'' @
     [CHR 0xE7, CHR 0x8E, CHR 0xAF, CHR 0xE5, CHR 0xA2, CHR 0x83, CHR 0xE5, CHR 0x8F,
      CHR 0x98, CHR 0xE9, CHR 0x87, CHR 0x8F, CHR 0xEF, CHR 0xBC, CHR 0x8C, CHR 0xE8,
      CHR 0xB7, CHR 0xB3, CHR 0xE8, CHR 0xBF, CHR 0x87, CHR 0xE7, CHR 0xAD, CHR 0xBE,
      CHR 0xE5, CHR 0x90, CHR 0x8D, CHR 0xE9, CHR 0xAA, CHR 0x8C, CHR 0xE8, CHR 0xAF,
      CHR 0x81]"

definition log_missing_header :: string where
  "log_missing_header =
     [CHR 0xE2, CHR 0x9D, CHR 0x8C] @
     '' '' @
     [CHR 0xE7, CHR 0xBC, CHR 0xBA, CHR 0xE5, CHR 0xB0, CHR 0x91] @
     ''GitHub'' @
     [CHR 0xE7, CHR 0xAD, CHR 0xBE, CHR 0xE5, CHR 0x90, CHR 0x8D, CHR 0xE5, CHR 0xA4, CHR 0xB4]"

definition log_signature_invalid :: string where
  "log_signature_invalid =
     [CHR 0xE2, CHR 0x9D, CHR 0x8C] @
     '' GitHub'' @
     [CHR 0xE7, CHR 0xAD, CHR 0xBE, CHR 0xE5, CHR 0x90, CHR 0x8D, CHR 0xE9, CHR 0xAA,
      CHR 0x8C, CHR 0xE8, CHR 0xAF, CHR 0x81, CHR 0xE5, CHR 0xA4, CHR 0xB1, CHR 0xE8,
      CHR 0xB4, CHR 0xA5]"

definition log_signature_valid :: string where
  "log_signature_valid =
     [CHR 0xE2, CHR 0x9C, CHR 0x85] @
     '' GitHub'' @
     [CHR 0xE7, CHR 0xAD, CHR 0xBE, CHR 0xE5, CHR 0x90, CHR 0x8D, CHR 0xE9, CHR 0xAA,
      CHR 0x8C, CHR 0xE8, CHR 0xAF, CHR 0x81, CHR 0xE6, CHR 0x88, CHR 0x90, CHR 0xE5,
      CHR 0x8A, CHR 0x9F]"

definition log_verification_error :: string where
  "log_verification_error =
     [CHR 0xE2, CHR 0x9D, CHR 0x8C] @
     '' '' @
     [CHR 0xE7, CHR 0xAD, CHR 0xBE, CHR 0xE5, CHR 0x90, CHR 0x8D, CHR 0xE9, CHR 0xAA,
      CHR 0x8C, CHR 0xE8, CHR 0xAF, CHR 0x81, CHR 0xE8, CHR 0xBF, CHR 0x87, CHR 0xE7,
      CHR 0xA8, CHR 0x8B, CHR 0xE4, CHR 0xB8, CHR 0xAD, CHR 0xE5, CHR 0x8F, CHR 0x91,
      CHR 0xE7, CHR 0x94, CHR 0x9F, CHR 0xE9, CHR 0x94, CHR 0x99, CHR 0xE8, CHR 0xAF,
      CHR 0xAF] @
     '':''"

text \<open>The function gives what it wrote to the console and what it did with the request.\<close>

definition verifyGitHubSignature ::
  "(string \<Rightarrow> string \<Rightarrow> 256 word) \<Rightarrow> string option \<Rightarrow> request \<Rightarrow> console_line list \<times> verdict" where
  "verifyGitHubSignature hmac GITHUB_WEBHOOK_SECRET req =
     (if falsy GITHUB_WEBHOOK_SECRET then ([Console_warn log_no_secret], Next)
      else if falsy (x_hub_signature_256 req) then
        ([Console_error log_missing_header],
         Reply \<lparr> status = 401,
                 members = [(''error'', JStr msg_unauthorized),
                            (''message'', JStr msg_missing_signature)] \<rparr>)
      else
        (case timingSafeEqual (string_of (x_hub_signature_256 req))
                (''sha256='' @ digest_hex (hmac (string_of GITHUB_WEBHOOK_SECRET) (body req))) of
           Inl e \<Rightarrow>
             ([Console_error_with log_verification_error e],
              Reply \<lparr> status = 500,
                      members = [(''error'', JStr msg_internal_error),
                                 (''message'', JStr msg_signature_failed)] \<rparr>)
         | Inr isValid \<Rightarrow>
             if \<not> isValid then
               ([Console_error log_signature_invalid],
                Reply \<lparr> status = 401,
                        members = [(''error'', JStr msg_unauthorized),
                                   (''message'', JStr (''GitHub'' @ msg_signature_failed))] \<rparr>)
             else ([Console_log log_signature_valid], Next)))"

subsection \<open>The route POST /webhook/github\<close>

text \<open>
  \<open>payload.zen\<close>: reading a property of \<open>null\<close> throws a \<open>TypeError\<close> (with the
  message of V8), an object gives the member or \<open>undefined\<close> (\<open>None\<close>), every other
  value gives \<open>undefined\<close>.
\<close>

definition read_zen :: "json \<Rightarrow> string + json option" where
  "read_zen payload =
     (case payload of
        JNull \<Rightarrow> Inl ''Cannot read properties of null (reading 'zen')''
      | JObj ms \<Rightarrow> Inr (map_of ms ''zen'')
      | _ \<Rightarrow> Inr None)"

definition internal_error :: "string \<Rightarrow> response" where
  "internal_error message =
     \<lparr> status = 500,
       members = [(''error'', JStr msg_internal_error), (''message'', JStr message)] \<rparr>"

text \<open>
  The handler of the route, as \<open>server.js\<close> mounts it under \<open>/webhook\<close>; the route
  registers no middleware in front of it.  \<open>JSON.parse\<close> and \<open>handlePullRequestEvent\<close>
  are parameters: each gives its value, or the message of the error it throws (the
  handler reads the payload only, and answers through \<open>res\<close>).  A member whose value
  is \<open>undefined\<close> is left out of the response.
\<close>

definition post_github ::
  "(string \<Rightarrow> string + json) \<Rightarrow> (json \<Rightarrow> string + response) \<Rightarrow> request \<Rightarrow> response" where
  "post_github JSON_parse handlePullRequestEvent req =
     (case JSON_parse (body req) of
        Inl message \<Rightarrow> internal_error message
      | Inr payload \<Rightarrow>
          if x_github_event req = Some ''pull_request'' then
            (case handlePullRequestEvent payload of
               Inl message \<Rightarrow> internal_error message
             | Inr res \<Rightarrow> res)
          else if x_github_event req = Some ''ping'' then
            (case read_zen payload of
               Inl message \<Rightarrow> internal_error message
             | Inr zen \<Rightarrow>
                 \<lparr> status = 200,
                   members = (''message'', JStr msg_webhook_received) #
                             (case zen of None \<Rightarrow> [] | Some z \<Rightarrow> [(''zen'', z)]) \<rparr>)
          else
            \<lparr> status = 200,
              members = [(''message'', JStr (msg_event_not_handled
                            (case x_github_event req of None \<Rightarrow> ''undefined'' | Some e \<Rightarrow> e))),
                         (''processed'', JBool False)] \<rparr>)"

section \<open>The review orchestrator (DeepSeekService)\<close>

subsection \<open>Data\<close>

datatype rating = Good | Needs_improvement | Needs_attention

text \<open>What \<open>parseAIResponse\<close> returns; the comments are opaque here.\<close>

record 'c parsed =
  p_comments :: "'c list"
  p_suggestions :: "string list"
  p_risks :: "string list"
  p_rating :: rating

text \<open>
  The object that \<open>reviewCodeChunk\<close> resolves to; a member that the source leaves out
  is \<open>None\<close>.
\<close>

record 'c review =
  success :: bool
  error :: "string option"
  r_aiComments :: "'c list"
  overallRating :: "rating option"
  suggestions :: "string list option"
  risks :: "string list option"

text \<open>How a promise settles; a rejection carries \<open>reason.message\<close>.\<close>

datatype 'a settled = Fulfilled 'a | Rejected string

record 'c result =
  r_chunk :: chunk
  r_review :: "'c review"

definition msg_no_api_key :: string where
  "msg_no_api_key =
     ''DeepSeek API Key'' @ [CHR 0xE6, CHR 0x9C, CHR 0xAA, CHR 0xE9, CHR 0x85, CHR 0x8D,
                             CHR 0xE7, CHR 0xBD, CHR 0xAE]"

definition failure :: "string \<Rightarrow> 'c review" where
  "failure message =
     \<lparr> success = False, error = Some message, r_aiComments = [],
       overallRating = None, suggestions = None, risks = None \<rparr>"

subsection \<open>reviewCodeChunk\<close>

text \<open>
  \<open>askReviewer chunk\<close> stands for the part of the \<open>try\<close> block up to \<open>aiResponse\<close>: building
  the prompt, the call \<open>axios.post\<close> and reading \<open>choices[0].message.content\<close>.  It gives
  the text of the answer, or the message of the error thrown on the way.
  \<open>parseAIResponse\<close> catches its own errors and is a parameter as well.  The function
  has a \<open>catch\<close> around its whole body, so its promise is always fulfilled.
\<close>

definition reviewCodeChunk ::
  "string option \<Rightarrow> (chunk \<Rightarrow> string + string) \<Rightarrow> (string \<Rightarrow> chunk \<Rightarrow> 'c parsed) \<Rightarrow>
     chunk \<Rightarrow> 'c review settled" where
  "reviewCodeChunk apiKey askReviewer parseAIResponse chunk =
     (if falsy apiKey then Fulfilled (failure msg_no_api_key)
      else
        (case askReviewer chunk of
           Inl message \<Rightarrow> Fulfilled (failure message)
         | Inr aiResponse \<Rightarrow>
             (let reviewResult = parseAIResponse aiResponse chunk
              in Fulfilled \<lparr> success = True, error = None,
                             r_aiComments = p_comments reviewResult,
                             overallRating = Some (p_rating reviewResult),
                             suggestions = Some (p_suggestions reviewResult),
                             risks = Some (p_risks reviewResult) \<rparr>)))"

subsection \<open>reviewMultipleChunks\<close>

definition concurrencyLimit :: nat where
  "concurrencyLimit = 3"

text \<open>\<open>xs.slice(i, j)\<close> for \<open>0 \<le> i \<le> j\<close>.\<close>

definition slice :: "'a list \<Rightarrow> nat \<Rightarrow> nat \<Rightarrow> 'a list" where
  "slice xs i j = take (j - i) (drop i xs)"

text \<open>\<open>for (let i = 0; i < chunks.length; i += concurrencyLimit) batches.push(...)\<close>, from \<open>i\<close> on.\<close>

function make_batches :: "nat \<Rightarrow> 'a list \<Rightarrow> 'a list list" where
  "make_batches i chunkList =
     (if i < length chunkList
      then slice chunkList i (i + concurrencyLimit) # make_batches (i + concurrencyLimit) chunkList
      else [])"
  by pat_completeness auto
termination
  by (relation "measure (\<lambda>(i, chunkList). length chunkList - i)") (auto simp: concurrencyLimit_def)

declare make_batches.simps [simp del]

text \<open>
  \<open>Promise.allSettled(promises)\<close>.  Each promise writes how it settled into the slot of
  its own position when it settles; \<open>order\<close> lists the positions in the order in which
  the promises settle.  The combined promise resolves with the slots once all are
  written, and never (\<open>None\<close>) if one of the promises never settles.
\<close>

definition allSettled :: "nat list \<Rightarrow> 'a settled list \<Rightarrow> 'a settled list option" where
  "allSettled order promises =
     those (foldl (\<lambda>slots k. if k < length slots then slots[k := Some (promises ! k)] else slots)
                  (replicate (length promises) None) order)"

text \<open>The body of \<open>batchResults.forEach((result, index) => ...)\<close>.\<close>

definition to_result :: "chunk list \<Rightarrow> nat \<times> 'c review settled \<Rightarrow> 'c result" where
  "to_result batch ir =
     (case ir of (index, result) \<Rightarrow>
        (case result of
           Fulfilled v \<Rightarrow> \<lparr> r_chunk = batch ! index, r_review = v \<rparr>
         | Rejected message \<Rightarrow> \<lparr> r_chunk = batch ! index, r_review = failure message \<rparr>))"

text \<open>
  \<open>for (const batch of batches)\<close>: \<open>b\<close> counts the batches, \<open>sched b\<close> is the order in
  which the calls of batch \<open>b\<close> settle, \<open>results\<close> is the array filled so far.  The pause
  between two batches changes no value and is left out.  \<open>None\<close>: the function never
  returns.
\<close>

fun run_batches ::
  "(nat \<Rightarrow> nat list) \<Rightarrow> (chunk \<Rightarrow> 'c review settled) \<Rightarrow> nat \<Rightarrow> chunk list list \<Rightarrow>
     'c result list \<Rightarrow> 'c result list option" where
  "run_batches sched call b [] results = Some results"
| "run_batches sched call b (batch # rest) results =
     (case allSettled (sched b) (map call batch) of
        None \<Rightarrow> None
      | Some batchResults \<Rightarrow>
          run_batches sched call (b + 1) rest
            (results @ map (to_result batch) (enumerate 0 batchResults)))"

text \<open>
  \<open>call\<close> is \<open>this.reviewCodeChunk(chunk, prContext)\<close>, kept as a parameter so that the
  branch for a rejected call is covered as well.
\<close>

definition reviewMultipleChunks ::
  "(nat \<Rightarrow> nat list) \<Rightarrow> (chunk \<Rightarrow> 'c review settled) \<Rightarrow> chunk list \<Rightarrow> 'c result list option" where
  "reviewMultipleChunks sched call chunkList =
     run_batches sched call 0 (make_batches 0 chunkList) []"

text \<open>Every call of every batch settles.\<close>

definition every_call_settles :: "(nat \<Rightarrow> nat list) \<Rightarrow> 'a list \<Rightarrow> bool" where
  "every_call_settles sched chunkList =
     (\<forall>b \<in> set [0..<length (make_batches 0 chunkList)].
        set (sched b) = set [0..<length (make_batches 0 chunkList ! b)])"

section \<open>Notions used in the statements and the proofs\<close>

text \<open>The numbers of a sequence of line numbers, without the \<open>null\<close> entries.\<close>

fun non_null :: "'a option list \<Rightarrow> 'a list" where
  "non_null [] = []"
| "non_null (None # xs) = non_null xs"
| "non_null (Some n # xs) = n # non_null xs"

text \<open>A line number is truthy for \<open>||\<close> when it is neither \<open>null\<close> nor \<open>0\<close>.\<close>

definition truthy :: "jsnum option \<Rightarrow> bool" where
  "truthy v = (v \<noteq> None \<and> v \<noteq> Some (Fin 0))"

text \<open>
  A number of at most 53 binary digits, that is below \<open>2^53\<close>: on these numbers \<open>++\<close>
  adds one exactly.
\<close>

definition safe_integer :: "jsnum \<Rightarrow> bool" where
  "safe_integer a = (case a of Infinity \<Rightarrow> False | Fin n \<Rightarrow> bit_width n \<le> 53)"

text \<open>Each number of the sequence is the one before it after \<open>++\<close>.\<close>

fun chain :: "jsnum list \<Rightarrow> bool" where
  "chain [] = True"
| "chain [x] = True"
| "chain (x # y # r) = (y = js_inc x \<and> chain (y # r))"

text \<open>
  The invariant of the loop of the parser: on each side the numbers recorded in the open
  hunk, followed by the running counter, form such a sequence, and so do the numbers of
  each side of every chunk pushed so far.
\<close>

definition side_inv :: "jsnum option list \<Rightarrow> jsnum \<Rightarrow> bool" where
  "side_inv ns counter = chain (non_null ns @ [counter])"

definition chunk_chain :: "chunk \<Rightarrow> bool" where
  "chunk_chain ch = (chain (non_null (map fc_oldLineNumber (changes ch))) \<and>
                     chain (non_null (map fc_newLineNumber (changes ch))))"

definition state_inv :: "pstate \<Rightarrow> bool" where
  "state_inv st =
     ((case currentHunk st of None \<Rightarrow> True
       | Some h \<Rightarrow> side_inv (map c_oldLineNumber (h_changes h)) (oldLineNumber st) \<and>
                   side_inv (map c_newLineNumber (h_changes h)) (newLineNumber st)) \<and>
      (\<forall>ch \<in> set (chunks st). chunk_chain ch))"

text \<open>What \<open>reviewMultipleChunks\<close> pushes for one chunk, given how its call settles.\<close>

definition result_of :: "(chunk \<Rightarrow> 'c review settled) \<Rightarrow> chunk \<Rightarrow> 'c result" where
  "result_of call c =
     \<lparr> r_chunk = c,
       r_review = (case call c of Fulfilled v \<Rightarrow> v | Rejected message \<Rightarrow> failure message) \<rparr>"

section \<open>Properties of the numbers\<close>

lemma bit_width_le: "bit_width n \<le> k \<longleftrightarrow> n < 2 ^ k"
proof (induction k arbitrary: n)
  case 0
  then show ?case by (subst bit_width.simps) simp
next
  case (Suc k)
  have "n div 2 < 2 ^ k \<longleftrightarrow> n < 2 ^ Suc k" by auto
  with Suc [of "n div 2"] show ?case
    by (subst bit_width.simps) auto
qed

lemma bit_width_eq: "2 ^ k \<le> n \<Longrightarrow> n < 2 ^ Suc k \<Longrightarrow> bit_width n = Suc k"
  using bit_width_le [of n k] bit_width_le [of n "Suc k"] by simp

lemma bit_width_two53: "bit_width 9007199254740992 = 54"
  using bit_width_eq [of 53 9007199254740992] by simp

lemma round_double_exact: "n \<le> 2 ^ 53 \<Longrightarrow> round_double n = Fin n"
proof (cases "n < 2 ^ 53")
  case True
  then show ?thesis by (simp add: round_double_def bit_width_le)
next
  case False
  assume "n \<le> 2 ^ 53"
  with False have n: "n = 9007199254740992" by simp
  show ?thesis
    unfolding n round_double_def Let_def bit_width_two53 by (simp add: bit_width_two53)
qed

text \<open>The first number that is not a double lies half way and goes to the even side.\<close>

lemma round_double_tie: "round_double 9007199254740993 = Fin 9007199254740992"
proof -
  have w: "bit_width 9007199254740993 = 54"
    using bit_width_eq [of 53 9007199254740993] by simp
  show ?thesis
    unfolding round_double_def Let_def w by (simp add: bit_width_two53)
qed

lemma js_inc_exact: "bit_width n \<le> 53 \<Longrightarrow> js_inc (Fin n) = Fin (n + 1)"
proof -
  assume "bit_width n \<le> 53"
  then have "n + 1 \<le> 2 ^ 53" by (simp add: bit_width_le)
  then show ?thesis by (simp add: js_inc_def js_add_def round_double_exact)
qed

lemma js_inc_two53: "js_inc (Fin 9007199254740992) = Fin 9007199254740992"
  by (simp add: js_inc_def js_add_def round_double_tie)

lemma js_less_trans: "js_less a b \<Longrightarrow> js_less b c \<Longrightarrow> js_less a c"
  by (auto simp: js_less_def split: jsnum.splits)

lemma js_less_inc: "safe_integer a \<Longrightarrow> js_less a (js_inc a)"
  by (cases a) (simp_all add: safe_integer_def js_inc_exact js_less_def)

subsection \<open>Sequences of successive numbers\<close>

lemma chain_snoc: "chain (xs @ [c]) \<Longrightarrow> chain (xs @ [c, js_inc c])"
  by (induction xs rule: chain.induct) simp_all

lemma chain_butlast: "chain (xs @ [c]) \<Longrightarrow> chain xs"
  by (induction xs rule: chain.induct) simp_all

lemma chain_sorted:
  "chain xs \<Longrightarrow> \<forall>x \<in> set xs. safe_integer x \<Longrightarrow> sorted_wrt js_less xs"
proof (induction xs rule: chain.induct)
  case 1
  then show ?case by simp
next
  case (2 x)
  then show ?case by simp
next
  case (3 x y r)
  from "3.prems" have y: "y = js_inc x" and c: "chain (y # r)"
    and sx: "safe_integer x" and sr: "\<forall>z \<in> set (y # r). safe_integer z"
    by auto
  have tl: "sorted_wrt js_less (y # r)"
    using c sr by (rule "3.IH")
  have xy: "js_less x y"
    using sx y by (simp add: js_less_inc)
  have "\<forall>z \<in> set (y # r). js_less x z"
  proof
    fix z
    assume "z \<in> set (y # r)"
    then show "js_less x z"
      using tl xy js_less_trans [of x y z] by auto
  qed
  with tl show ?case by simp
qed

section \<open>Properties of the diff parser\<close>

subsection \<open>Prefix tests\<close>

lemma startsWith_Nil: "startsWith s [] = True"
  by (simp add: startsWith_def)

lemma startsWith_Cons: "startsWith (c # s) (d # p) = (c = d \<and> startsWith s p)"
  by (auto simp: startsWith_def)

lemma startsWith_empty: "startsWith [] (d # p) = False"
  by (simp add: startsWith_def)

lemmas startsWith_simps = startsWith_Nil startsWith_Cons startsWith_empty

lemma hunkMatch_startsWith: "hunkMatch l \<noteq> None \<Longrightarrow> startsWith l ''@@''"
  by (auto simp: hunkMatch_def match_lit_def split: option.splits if_splits)

lemma at_line_not_marker:
  assumes "startsWith l ''@@''"
  shows "\<not> startsWith l ''diff --git '' \<and> \<not> startsWith l ''--- '' \<and> \<not> startsWith l ''+++ ''"
proof (cases l)
  case Nil
  with assms show ?thesis by (simp add: startsWith_simps)
next
  case (Cons c r)
  with assms show ?thesis by (simp add: startsWith_simps)
qed

lemma step_header:
  assumes "hunkMatch l = Some (g1, g2, g3, g4)"
  shows "step st l =
     st\<lparr> chunks := flush st,
         currentHunk := Some \<lparr> h_oldStartLine = parseInt g1, h_oldLines = count_of g2,
                               h_newStartLine = parseInt g3, h_newLines = count_of g4,
                               h_changes = [] \<rparr>,
         oldLineNumber := parseInt g1,
         newLineNumber := parseInt g3 \<rparr>"
proof -
  have at: "startsWith l ''@@''"
    using assms by (simp add: hunkMatch_startsWith)
  then show ?thesis
    using at_line_not_marker [OF at] assms by (simp add: step_def)
qed

lemma step_unmatched_header:
  assumes "startsWith l ''@@''" and "hunkMatch l = None"
  shows "step st l = st\<lparr>chunks := flush st\<rparr>"
  using at_line_not_marker [OF assms(1)] assms by (simp add: step_def)

lemma step_added:
  assumes "currentHunk st = Some h" and "\<not> startsWith (CHR ''+'' # a) ''+++ ''"
  shows "step st (CHR ''+'' # a) =
     st\<lparr> currentHunk := Some (h\<lparr>h_changes := h_changes h @
                  [\<lparr> c_type = Add, c_content = a, c_oldLineNumber = None,
                     c_newLineNumber = Some (newLineNumber st) \<rparr>]\<rparr>),
         newLineNumber := js_inc (newLineNumber st) \<rparr>"
  using assms
  by (simp add: step_def code_line_def line_type_def Let_def startsWith_simps substring_def)

subsection \<open>Every chunk comes from createChunk\<close>

lemma flush_from_createChunk:
  assumes "\<And>f h. P (createChunk f h)" and "\<forall>ch \<in> set (chunks st). P ch"
  shows "\<forall>ch \<in> set (flush st). P ch"
  using assms by (auto simp: flush_def split: option.splits)

lemma chunks_step_subset: "set (chunks (step st line)) \<subseteq> set (flush st)"
  by (auto simp: step_def flush_def code_line_def Let_def split: option.splits)

lemma step_from_createChunk:
  assumes "\<And>f h. P (createChunk f h)" and "\<forall>ch \<in> set (chunks st). P ch"
  shows "\<forall>ch \<in> set (chunks (step st line)). P ch"
  using flush_from_createChunk [of P st, OF assms] chunks_step_subset [of st line] by blast

lemma foldl_step_from_createChunk:
  assumes "\<And>f h. P (createChunk f h)"
  shows "\<forall>ch \<in> set (chunks st). P ch \<Longrightarrow> \<forall>ch \<in> set (chunks (foldl step st ls)). P ch"
proof (induction ls arbitrary: st)
  case Nil
  then show ?case by simp
next
  case (Cons l ls)
  have "\<forall>ch \<in> set (chunks (step st l)). P ch"
    using assms Cons.prems by (rule step_from_createChunk)
  then show ?case using Cons.IH by simp
qed

lemma parse_lines_from_createChunk:
  assumes "\<And>f h. P (createChunk f h)"
  shows "\<forall>ch \<in> set (parse_lines ls). P ch"
proof -
  have "\<forall>ch \<in> set (chunks init_state). P ch"
    by (simp add: init_state_def)
  then have "\<forall>ch \<in> set (chunks (foldl step init_state ls)). P ch"
    using assms foldl_step_from_createChunk [of P init_state ls] by blast
  then show ?thesis
    unfolding parse_lines_def using assms flush_from_createChunk [of P] by blast
qed

subsection \<open>The loop invariant\<close>

lemma non_null_append: "non_null (xs @ ys) = non_null xs @ non_null ys"
  by (induction xs rule: non_null.induct) simp_all

lemma side_inv_Nil: "side_inv [] n"
  by (simp add: side_inv_def)

lemma side_inv_skip: "side_inv ns n \<Longrightarrow> side_inv (ns @ [None]) n"
  by (simp add: side_inv_def non_null_append)

lemma side_inv_push: "side_inv ns n \<Longrightarrow> side_inv (ns @ [Some n]) (js_inc n)"
  by (simp add: side_inv_def non_null_append chain_snoc)

lemma flat_old: "map fc_oldLineNumber (changes (createChunk f h)) = map c_oldLineNumber (h_changes h)"
  by (simp add: createChunk_def list_eq_iff_nth_eq nth_enumerate_eq flatten_change_def)

lemma flat_new: "map fc_newLineNumber (changes (createChunk f h)) = map c_newLineNumber (h_changes h)"
  by (simp add: createChunk_def list_eq_iff_nth_eq nth_enumerate_eq flatten_change_def)

lemma chunk_chain_createChunk:
  "side_inv (map c_oldLineNumber (h_changes h)) a \<Longrightarrow>
   side_inv (map c_newLineNumber (h_changes h)) b \<Longrightarrow> chunk_chain (createChunk f h)"
  by (simp add: chunk_chain_def flat_old flat_new side_inv_def chain_butlast)

lemma flush_chain: "state_inv st \<Longrightarrow> \<forall>ch \<in> set (flush st). chunk_chain ch"
  by (auto simp: state_inv_def flush_def chunk_chain_createChunk split: option.splits)

lemma code_line_inv:
  assumes "state_inv st" and "currentHunk st = Some h"
  shows "state_inv (code_line st h line)"
proof (cases "line_type line")
  case Add
  with assms show ?thesis
    by (simp add: state_inv_def code_line_def Let_def side_inv_push side_inv_skip)
next
  case Del
  with assms show ?thesis
    by (simp add: state_inv_def code_line_def Let_def side_inv_push side_inv_skip)
next
  case Normal
  with assms show ?thesis
    by (simp add: state_inv_def code_line_def Let_def side_inv_push side_inv_skip)
qed

lemma step_inv:
  assumes inv: "state_inv st"
  shows "state_inv (step st line)"
proof -
  have fl: "\<forall>ch \<in> set (flush st). chunk_chain ch"
    using inv by (rule flush_chain)
  have hk: "\<And>h. currentHunk st = Some h \<Longrightarrow>
              side_inv (map c_oldLineNumber (h_changes h)) (oldLineNumber st) \<and>
              side_inv (map c_newLineNumber (h_changes h)) (newLineNumber st)"
    using inv by (simp add: state_inv_def)
  have ck: "\<forall>ch \<in> set (chunks st). chunk_chain ch"
    using inv by (simp add: state_inv_def)
  consider (git) "startsWith line ''diff --git ''"
    | (minus) "\<not> startsWith line ''diff --git ''" "startsWith line ''--- ''"
    | (plus) "\<not> startsWith line ''diff --git ''" "\<not> startsWith line ''--- ''"
            "startsWith line ''+++ ''"
    | (hdr) "\<not> startsWith line ''diff --git ''" "\<not> startsWith line ''--- ''"
            "\<not> startsWith line ''+++ ''" "startsWith line ''@@''"
    | (other) "\<not> startsWith line ''diff --git ''" "\<not> startsWith line ''--- ''"
            "\<not> startsWith line ''+++ ''" "\<not> startsWith line ''@@''"
    by blast
  then show ?thesis
  proof cases
    case git
    then show ?thesis using fl by (simp add: step_def state_inv_def)
  next
    case minus
    then show ?thesis using hk ck
      by (cases "currentFile st") (auto simp: step_def state_inv_def split: option.splits)
  next
    case plus
    then show ?thesis using hk ck
      by (cases "currentFile st") (auto simp: step_def state_inv_def split: option.splits)
  next
    case hdr
    then show ?thesis using hk fl
      by (cases "hunkMatch line")
         (auto simp: step_def state_inv_def side_inv_Nil split: option.splits)
  next
    case other
    then show ?thesis using inv
      by (cases "currentHunk st") (simp_all add: step_def code_line_inv)
  qed
qed

lemma foldl_step_inv: "state_inv st \<Longrightarrow> state_inv (foldl step st ls)"
  by (induction ls arbitrary: st) (simp_all add: step_inv)

lemma init_state_inv: "state_inv init_state"
  by (simp add: state_inv_def init_state_def)

subsection \<open>The emitted line number\<close>

lemma or_else_truthy: "or_else a b = (if truthy a then the a else b)"
  by (cases a) (simp_all add: or_else_def truthy_def)

lemma createChunk_lineNumber:
  assumes "i < length (changes (createChunk f h))"
  shows "lineNumber (changes (createChunk f h) ! i) =
           (if truthy (fc_newLineNumber (changes (createChunk f h) ! i))
            then the (fc_newLineNumber (changes (createChunk f h) ! i))
            else if truthy (fc_oldLineNumber (changes (createChunk f h) ! i))
            then the (fc_oldLineNumber (changes (createChunk f h) ! i))
            else js_add (newStartLine (createChunk f h)) (Fin i))"
  using assms
  by (simp add: createChunk_def nth_enumerate_eq flatten_change_def or_else_truthy)

section \<open>Properties of the review orchestrator\<close>

subsection \<open>Promise.allSettled keeps the positions\<close>

lemma those_map_Some: "those (map Some xs) = Some xs"
  by (induction xs) simp_all

lemma settle_fold:
  "length slots = length ps \<Longrightarrow>
   foldl (\<lambda>slots k. if k < length slots then slots[k := Some (ps ! k)] else slots) slots order =
   map (\<lambda>k. if k \<in> set order then Some (ps ! k) else slots ! k) [0..<length ps]"
proof (induction order arbitrary: slots)
  case Nil
  have "map (\<lambda>k. slots ! k) [0..<length slots] = slots"
    by (rule map_nth)
  with Nil show ?case by simp
next
  case (Cons k order)
  define s where "s = (if k < length slots then slots[k := Some (ps ! k)] else slots)"
  have len: "length s = length ps"
    using Cons.prems by (simp add: s_def)
  have "map (\<lambda>j. if j \<in> set order then Some (ps ! j) else s ! j) [0..<length ps] =
        map (\<lambda>j. if j \<in> set (k # order) then Some (ps ! j) else slots ! j) [0..<length ps]"
  proof (rule map_cong [OF refl])
    fix j
    assume "j \<in> set [0..<length ps]"
    then have "j < length slots" using Cons.prems by simp
    then show "(if j \<in> set order then Some (ps ! j) else s ! j) =
               (if j \<in> set (k # order) then Some (ps ! j) else slots ! j)"
      by (simp add: s_def nth_list_update)
  qed
  with Cons.IH [OF len] show ?case by (simp add: s_def)
qed

lemma allSettled_complete:
  assumes "set order = set [0..<length ps]"
  shows "allSettled order ps = Some ps"
proof -
  have "map (\<lambda>k. if k \<in> set order then Some (ps ! k) else replicate (length ps) None ! k)
            [0..<length ps] = map (\<lambda>k. Some (ps ! k)) [0..<length ps]"
    by (rule map_cong [OF refl]) (simp add: assms)
  also have "\<dots> = map Some (map (\<lambda>k. ps ! k) [0..<length ps])"
    by (simp add: comp_def)
  also have "\<dots> = map Some ps"
    by (simp only: map_nth)
  finally have "foldl (\<lambda>slots k. if k < length slots then slots[k := Some (ps ! k)] else slots)
          (replicate (length ps) None) order = map Some ps"
    by (simp only: settle_fold [of "replicate (length ps) None" ps order, OF length_replicate])
  then show ?thesis by (simp only: allSettled_def those_map_Some)
qed

subsection \<open>The batches, run one after the other\<close>

lemma to_result_batch:
  "map (to_result batch) (enumerate 0 (map call batch)) = map (result_of call) batch"
  by (auto simp: list_eq_iff_nth_eq nth_enumerate_eq to_result_def result_of_def
           split: settled.splits)

lemma run_batches_settled:
  "(\<And>j. j < length bs \<Longrightarrow> set (sched (b + j)) = set [0..<length (bs ! j)]) \<Longrightarrow>
   run_batches sched call b bs results = Some (results @ map (result_of call) (concat bs))"
proof (induction bs arbitrary: b results)
  case Nil
  then show ?case by simp
next
  case (Cons batch rest)
  have "set (sched b) = set [0..<length (map call batch)]"
    using Cons.prems [of 0] by simp
  then have first: "allSettled (sched b) (map call batch) = Some (map call batch)"
    by (rule allSettled_complete)
  have "\<And>j. j < length rest \<Longrightarrow> set (sched (b + 1 + j)) = set [0..<length (rest ! j)]"
    using Cons.prems [of "Suc j" for j] by simp
  then have "run_batches sched call (b + 1) rest (results @ map (result_of call) batch) =
               Some ((results @ map (result_of call) batch) @ map (result_of call) (concat rest))"
    by (rule Cons.IH)
  then show ?case by (simp add: first to_result_batch)
qed

lemma concat_make_batches: "concat (make_batches i xs) = drop i xs"
proof (induction i xs rule: make_batches.induct)
  case (1 i xs)
  show ?case
  proof (cases "i < length xs")
    case True
    have "take concurrencyLimit (drop i xs) @ drop concurrencyLimit (drop i xs) = drop i xs"
      by (rule append_take_drop_id)
    then show ?thesis
      using True "1.IH" by (subst make_batches.simps) (simp add: slice_def add.commute)
  next
    case False
    then show ?thesis by (subst make_batches.simps) simp
  qed
qed

lemma reviewMultipleChunks_settled:
  assumes "every_call_settles sched chunkList"
  shows "reviewMultipleChunks sched call chunkList = Some (map (result_of call) chunkList)"
proof -
  have "\<And>j. j < length (make_batches 0 chunkList) \<Longrightarrow>
          set (sched (0 + j)) = set [0..<length (make_batches 0 chunkList ! j)]"
    using assms by (simp add: every_call_settles_def)
  then have "run_batches sched call 0 (make_batches 0 chunkList) [] =
               Some ([] @ map (result_of call) (concat (make_batches 0 chunkList)))"
    by (rule run_batches_settled)
  then show ?thesis by (simp add: reviewMultipleChunks_def concat_make_batches)
qed

section \<open>Properties of the signature middleware\<close>

lemma length_digest_hex: "length (digest_hex w) = 64"
  by (simp add: digest_hex_def)

lemma route_ignores_signature:
  "post_github JSON_parse handler (req\<lparr>x_hub_signature_256 := s\<rparr>) =
   post_github JSON_parse handler req"
  by (cases "JSON_parse (body req)") (simp_all add: post_github_def)

section \<open>The claims about the review orchestrator\<close>

text \<open>
  C5.  \<open>reviewMultipleChunks\<close> returns one \<open>{chunk, review}\<close> result per input chunk, and
  the result at position \<open>i\<close> belongs to the input chunk at position \<open>i\<close>: it holds that
  chunk and the outcome of the call made for it.  This holds for every order in which
  the calls of each batch settle, as long as each of them settles.
\<close>

theorem reviewMultipleChunks_order:
  assumes "every_call_settles sched chunkList"
  shows "\<exists>results. reviewMultipleChunks sched call chunkList = Some results \<and>
           length results = length chunkList \<and>
           (\<forall>i < length chunkList.
              r_chunk (results ! i) = chunkList ! i \<and>
              r_review (results ! i) =
                (case call (chunkList ! i) of
                   Fulfilled v \<Rightarrow> v | Rejected message \<Rightarrow> failure message))"
  using reviewMultipleChunks_settled [OF assms, of call] by (simp add: result_of_def)

text \<open>
  Four chunks, hence two batches; in the first batch the third call settles first and
  the second call last.  The results come back in the order of the chunks.
\<close>

theorem reviewMultipleChunks_order_witness:
  "every_call_settles (\<lambda>b. if b = 0 then [2, 0, 1] else [0])
     (parseDiffToChunks
        ''diff --git a/f b/f\<newline>@@ -1 +1 @@\<newline>+a\<newline>@@ -2 +2 @@\<newline>+b\<newline>@@ -3 +3 @@\<newline>+c\<newline>@@ -4 +4 @@\<newline>+d'') \<and>
   (\<exists>results.
      reviewMultipleChunks (\<lambda>b. if b = 0 then [2, 0, 1] else [0])
        (\<lambda>c. if newStartLine c = Fin 2 then Rejected ''boom''
              else Fulfilled (failure ''none'' :: string review))
        (parseDiffToChunks
           ''diff --git a/f b/f\<newline>@@ -1 +1 @@\<newline>+a\<newline>@@ -2 +2 @@\<newline>+b\<newline>@@ -3 +3 @@\<newline>+c\<newline>@@ -4 +4 @@\<newline>+d'')
        = Some results \<and>
      length results = 4 \<and>
      map (\<lambda>r. newStartLine (r_chunk r)) results = [Fin 1, Fin 2, Fin 3, Fin 4])"
proof -
  let ?t = "''diff --git a/f b/f\<newline>@@ -1 +1 @@\<newline>+a\<newline>@@ -2 +2 @@\<newline>+b\<newline>@@ -3 +3 @@\<newline>+c\<newline>@@ -4 +4 @@\<newline>+d''"
  let ?sched = "\<lambda>b::nat. if b = 0 then [2, 0, 1] else [0::nat]"
  let ?call = "\<lambda>c. if newStartLine c = Fin 2 then Rejected ''boom''
                     else Fulfilled (failure ''none'' :: string review)"
  have settles: "every_call_settles ?sched (parseDiffToChunks ?t)"
    by code_simp
  have starts: "map newStartLine (parseDiffToChunks ?t) = [Fin 1, Fin 2, Fin 3, Fin 4]"
    by code_simp
  have len: "length (parseDiffToChunks ?t) = 4"
    using arg_cong [OF starts, of length] by simp
  obtain results where res: "reviewMultipleChunks ?sched ?call (parseDiffToChunks ?t) = Some results"
      and n: "length results = length (parseDiffToChunks ?t)"
      and each: "\<forall>i < length (parseDiffToChunks ?t). r_chunk (results ! i) = parseDiffToChunks ?t ! i"
    using reviewMultipleChunks_order [OF settles, of ?call] by blast
  have "map r_chunk results = parseDiffToChunks ?t"
    using n each by (simp add: list_eq_iff_nth_eq)
  then have "map newStartLine (map r_chunk results) = [Fin 1, Fin 2, Fin 3, Fin 4]"
    using starts by simp
  then have "map (\<lambda>r. newStartLine (r_chunk r)) results = [Fin 1, Fin 2, Fin 3, Fin 4]"
    by (simp add: comp_def)
  with settles res n len show ?thesis by simp
qed

text \<open>
  C6.  A call that fails becomes a failure outcome and nothing else changes.  In
  \<open>reviewMultipleChunks\<close>, whatever the calls do, the function returns (provided each call
  settles); the result of a rejected call is \<open>{success: false, error: <message>,
  aiComments: []}\<close>, and the result of a fulfilled call is the value it was fulfilled
  with, whatever happened to the other calls of its batch or of other batches.  In
  \<open>reviewCodeChunk\<close>, with an API key, an error thrown on the way to the reviewer's answer
  is caught and the promise is fulfilled with that same failure outcome.
\<close>

theorem review_failure_isolated:
  assumes "every_call_settles sched chunkList"
  shows "(\<exists>results. reviewMultipleChunks sched call chunkList = Some results \<and>
            length results = length chunkList \<and>
            (\<forall>i < length chunkList.
               (\<forall>message. call (chunkList ! i) = Rejected message \<longrightarrow>
                  r_review (results ! i) =
                    \<lparr> success = False, error = Some message, r_aiComments = [],
                      overallRating = None, suggestions = None, risks = None \<rparr>) \<and>
               (\<forall>v. call (chunkList ! i) = Fulfilled v \<longrightarrow> r_review (results ! i) = v))) \<and>
         (\<forall>c message. \<not> falsy apiKey \<and> askReviewer c = Inl message \<longrightarrow>
            reviewCodeChunk apiKey askReviewer parseAIResponse c =
              Fulfilled \<lparr> success = False, error = Some message, r_aiComments = [],
                          overallRating = None, suggestions = None, risks = None \<rparr>)"
proof -
  have "\<exists>results. reviewMultipleChunks sched call chunkList = Some results \<and>
            length results = length chunkList \<and>
            (\<forall>i < length chunkList.
               (\<forall>message. call (chunkList ! i) = Rejected message \<longrightarrow>
                  r_review (results ! i) =
                    \<lparr> success = False, error = Some message, r_aiComments = [],
                      overallRating = None, suggestions = None, risks = None \<rparr>) \<and>
               (\<forall>v. call (chunkList ! i) = Fulfilled v \<longrightarrow> r_review (results ! i) = v))"
    using reviewMultipleChunks_settled [OF assms, of call]
    by (simp add: result_of_def failure_def)
  moreover have "\<forall>c message. \<not> falsy apiKey \<and> askReviewer c = Inl message \<longrightarrow>
            reviewCodeChunk apiKey askReviewer parseAIResponse c =
              Fulfilled \<lparr> success = False, error = Some message, r_aiComments = [],
                          overallRating = None, suggestions = None, risks = None \<rparr>"
    by (simp add: reviewCodeChunk_def failure_def)
  ultimately show ?thesis by blast
qed

text \<open>
  Four chunks in two batches; the call for the second chunk is rejected.  Its result is
  the failure outcome, and its neighbour in the batch and the chunk of the other batch
  keep the value of their own calls.  And \<open>reviewCodeChunk\<close> with a key and a request
  that throws.
\<close>

theorem review_failure_isolated_witness:
  "every_call_settles (\<lambda>b. if b = 0 then [2, 0, 1] else [0])
     (parseDiffToChunks
        ''diff --git a/f b/f\<newline>@@ -1 +1 @@\<newline>+a\<newline>@@ -2 +2 @@\<newline>+b\<newline>@@ -3 +3 @@\<newline>+c\<newline>@@ -4 +4 @@\<newline>+d'') \<and>
   (\<exists>results.
      reviewMultipleChunks (\<lambda>b. if b = 0 then [2, 0, 1] else [0])
        (\<lambda>c. if newStartLine c = Fin 2 then Rejected ''boom''
              else Fulfilled \<lparr> success = True, error = None, r_aiComments = [''fine''],
                               overallRating = Some Good, suggestions = Some [],
                               risks = Some [] \<rparr>)
        (parseDiffToChunks
           ''diff --git a/f b/f\<newline>@@ -1 +1 @@\<newline>+a\<newline>@@ -2 +2 @@\<newline>+b\<newline>@@ -3 +3 @@\<newline>+c\<newline>@@ -4 +4 @@\<newline>+d'')
        = Some results \<and>
      r_review (results ! 1) =
        \<lparr> success = False, error = Some ''boom'', r_aiComments = [],
          overallRating = None, suggestions = None, risks = None \<rparr> \<and>
      success (r_review (results ! 0)) \<and> success (r_review (results ! 3))) \<and>
   \<not> falsy (Some ''key'') \<and>
   reviewCodeChunk (Some ''key'') (\<lambda>c. Inl ''timeout'')
       (\<lambda>s c. \<lparr> p_comments = [s], p_suggestions = [], p_risks = [], p_rating = Good \<rparr>)
       (hd (parseDiffToChunks
              ''diff --git a/f b/f\<newline>@@ -1 +1 @@\<newline>+a\<newline>@@ -2 +2 @@\<newline>+b\<newline>@@ -3 +3 @@\<newline>+c\<newline>@@ -4 +4 @@\<newline>+d'')) =
     Fulfilled \<lparr> success = False, error = Some ''timeout'', r_aiComments = [],
                 overallRating = None, suggestions = None, risks = None \<rparr>"
proof -
  let ?t = "''diff --git a/f b/f\<newline>@@ -1 +1 @@\<newline>+a\<newline>@@ -2 +2 @@\<newline>+b\<newline>@@ -3 +3 @@\<newline>+c\<newline>@@ -4 +4 @@\<newline>+d''"
  let ?sched = "\<lambda>b::nat. if b = 0 then [2, 0, 1] else [0::nat]"
  let ?ok = "\<lparr> success = True, error = None, r_aiComments = [''fine''],
               overallRating = Some Good, suggestions = Some [], risks = Some [] \<rparr>"
  let ?call = "\<lambda>c. if newStartLine c = Fin 2 then Rejected ''boom'' else Fulfilled ?ok"
  let ?ask = "\<lambda>c::chunk. (Inl ''timeout'' :: string + string)"
  let ?parse = "\<lambda>(s::string) (c::chunk).
                  \<lparr> p_comments = [s], p_suggestions = [], p_risks = [], p_rating = Good \<rparr>"
  have settles: "every_call_settles ?sched (parseDiffToChunks ?t)"
    by code_simp
  have starts: "map newStartLine (parseDiffToChunks ?t) = [Fin 1, Fin 2, Fin 3, Fin 4]"
    by code_simp
  have len: "length (parseDiffToChunks ?t) = 4"
    using arg_cong [OF starts, of length] by simp
  have at: "newStartLine (parseDiffToChunks ?t ! 0) = Fin 1"
           "newStartLine (parseDiffToChunks ?t ! 1) = Fin 2"
           "newStartLine (parseDiffToChunks ?t ! 3) = Fin 4"
    using arg_cong [OF starts, of "\<lambda>l. l ! 0"] arg_cong [OF starts, of "\<lambda>l. l ! 1"]
          arg_cong [OF starts, of "\<lambda>l. l ! 3"] len
    by simp_all
  have key: "\<not> falsy (Some ''key'')"
    by (simp add: falsy_def)
  note iso = review_failure_isolated [OF settles, where call = ?call and apiKey = "Some ''key''"
      and askReviewer = ?ask and parseAIResponse = ?parse]
  obtain results where res: "reviewMultipleChunks ?sched ?call (parseDiffToChunks ?t) = Some results"
      and each: "\<forall>i < length (parseDiffToChunks ?t).
               (\<forall>message. ?call (parseDiffToChunks ?t ! i) = Rejected message \<longrightarrow>
                  r_review (results ! i) =
                    \<lparr> success = False, error = Some message, r_aiComments = [],
                      overallRating = None, suggestions = None, risks = None \<rparr>) \<and>
               (\<forall>v. ?call (parseDiffToChunks ?t ! i) = Fulfilled v \<longrightarrow> r_review (results ! i) = v)"
    using iso by blast
  have r1: "r_review (results ! 1) =
        \<lparr> success = False, error = Some ''boom'', r_aiComments = [],
          overallRating = None, suggestions = None, risks = None \<rparr>"
    using each [rule_format, of 1] len at by simp
  have r0: "r_review (results ! 0) = ?ok"
    using each [rule_format, of 0] len at by simp
  have r3: "r_review (results ! 3) = ?ok"
    using each [rule_format, of 3] len at by simp
  have caught: "reviewCodeChunk (Some ''key'') ?ask ?parse (hd (parseDiffToChunks ?t)) =
     Fulfilled \<lparr> success = False, error = Some ''timeout'', r_aiComments = [],
                 overallRating = None, suggestions = None, risks = None \<rparr>"
    using iso key by blast
  show ?thesis
    using settles res r1 r0 r3 key caught by simp
qed

section \<open>The claims about the diff parser\<close>

text \<open>
  C9, as the code has it.  In every chunk that \<open>parseDiffToChunks\<close> returns, the old line
  numbers of the changes that have one increase strictly along the changes as long as
  they are all below \<open>2^53\<close>, and so do the new line numbers.  (Each recorded number is
  the one recorded before it on its side after \<open>++\<close>, and \<open>++\<close> adds one exactly below
  \<open>2^53\<close>.)
\<close>

theorem line_numbers_strictly_increasing:
  assumes "ch \<in> set (parseDiffToChunks diffText)"
  shows "((\<forall>x \<in> set (non_null (map fc_oldLineNumber (changes ch))). safe_integer x) \<longrightarrow>
            sorted_wrt js_less (non_null (map fc_oldLineNumber (changes ch)))) \<and>
         ((\<forall>x \<in> set (non_null (map fc_newLineNumber (changes ch))). safe_integer x) \<longrightarrow>
            sorted_wrt js_less (non_null (map fc_newLineNumber (changes ch))))"
proof -
  have "chunk_chain ch"
    using assms flush_chain [OF foldl_step_inv [OF init_state_inv], of "split_nl diffText"]
    by (simp add: parseDiffToChunks_def parse_lines_def)
  then show ?thesis
    by (simp add: chunk_chain_def chain_sorted)
qed

text \<open>
  The wording of the specification, without the bound, fails from \<open>2^53\<close> on, where \<open>++\<close>
  no longer changes the counter.  The hunk \<open>@@ -1 +9007199254740992 @@\<close> with the lines
  \<open>+a\<close> and \<open>+b\<close> gives both changes the new line number 9007199254740992.
\<close>

theorem line_numbers_counterexample:
  "map (\<lambda>ch. non_null (map fc_newLineNumber (changes ch)))
       (parseDiffToChunks
          ''diff --git a/f b/f\<newline>@@ -1 +9007199254740992 @@\<newline>+a\<newline>+b'') =
     [[Fin 9007199254740992, Fin 9007199254740992]] \<and>
   \<not> js_less (Fin 9007199254740992) (Fin 9007199254740992)"
proof -
  let ?t = "''diff --git a/f b/f\<newline>@@ -1 +9007199254740992 @@\<newline>+a\<newline>+b''"
  let ?file = "\<lparr> f_oldFilePath = None, f_newFilePath = None, f_fileStatus = Modified \<rparr>"
  have sp: "split_nl ?t =
      [''diff --git a/f b/f'', ''@@ -1 +9007199254740992 @@'', ''+a'', ''+b'']"
    by code_simp
  have g: "hunkMatch ''@@ -1 +9007199254740992 @@'' =
      Some (''1'', None, ''9007199254740992'', None)"
    by code_simp
  have one: "parseInt ''1'' = Fin 1"
    by (simp add: parseInt_def digits_value_def digit_val_def round_double_exact)
  have big: "parseInt ''9007199254740992'' = Fin 9007199254740992"
    by (simp add: parseInt_def digits_value_def digit_val_def round_double_exact)
  define s2 where "s2 = step (step init_state ''diff --git a/f b/f'') ''@@ -1 +9007199254740992 @@''"
  have s2: "s2 = \<lparr> chunks = [], currentFile = Some ?file,
                    currentHunk = Some \<lparr> h_oldStartLine = Fin 1, h_oldLines = Fin 1,
                                          h_newStartLine = Fin 9007199254740992,
                                          h_newLines = Fin 1, h_changes = [] \<rparr>,
                    oldLineNumber = Fin 1, newLineNumber = Fin 9007199254740992 \<rparr>"
    by (simp add: s2_def step_def startsWith_simps init_state_def flush_def g count_of_def
          one big)
  define s4 where "s4 = step (step s2 ''+a'') ''+b''"
  have s4: "s4 = \<lparr> chunks = [], currentFile = Some ?file,
                    currentHunk = Some \<lparr> h_oldStartLine = Fin 1, h_oldLines = Fin 1,
                                          h_newStartLine = Fin 9007199254740992,
                                          h_newLines = Fin 1,
                                          h_changes =
                                            [\<lparr> c_type = Add, c_content = ''a'',
                                               c_oldLineNumber = None,
                                               c_newLineNumber = Some (Fin 9007199254740992) \<rparr>,
                                             \<lparr> c_type = Add, c_content = ''b'',
                                               c_oldLineNumber = None,
                                               c_newLineNumber = Some (Fin 9007199254740992) \<rparr>] \<rparr>,
                    oldLineNumber = Fin 1, newLineNumber = Fin 9007199254740992 \<rparr>"
    by (simp add: s4_def s2 step_def code_line_def line_type_def Let_def startsWith_simps
          substring_def js_inc_two53)
  have "parseDiffToChunks ?t = flush s4"
    by (simp add: parseDiffToChunks_def parse_lines_def sp s4_def s2_def)
  then have "map (\<lambda>ch. non_null (map fc_newLineNumber (changes ch))) (parseDiffToChunks ?t) =
     [[Fin 9007199254740992, Fin 9007199254740992]]"
    by (simp add: s4 flush_def flat_new)
  then show ?thesis
    by (simp add: js_less_def)
qed

text \<open>A hunk with a context line, a deleted line, an added line and a context line.\<close>

theorem line_numbers_strictly_increasing_witness:
  "hd (parseDiffToChunks ''diff --git a/f b/f\<newline>@@ -3,3 +3,3 @@\<newline> keep\<newline>-old\<newline>+new\<newline> tail'')
     \<in> set (parseDiffToChunks ''diff --git a/f b/f\<newline>@@ -3,3 +3,3 @@\<newline> keep\<newline>-old\<newline>+new\<newline> tail'') \<and>
   non_null (map fc_oldLineNumber (changes (hd (parseDiffToChunks
     ''diff --git a/f b/f\<newline>@@ -3,3 +3,3 @@\<newline> keep\<newline>-old\<newline>+new\<newline> tail'')))) = [Fin 3, Fin 4, Fin 5] \<and>
   non_null (map fc_newLineNumber (changes (hd (parseDiffToChunks
     ''diff --git a/f b/f\<newline>@@ -3,3 +3,3 @@\<newline> keep\<newline>-old\<newline>+new\<newline> tail'')))) = [Fin 3, Fin 4, Fin 5] \<and>
   safe_integer (Fin 3) \<and> safe_integer (Fin 4) \<and> safe_integer (Fin 5) \<and>
   sorted_wrt js_less (non_null (map fc_oldLineNumber (changes (hd (parseDiffToChunks
     ''diff --git a/f b/f\<newline>@@ -3,3 +3,3 @@\<newline> keep\<newline>-old\<newline>+new\<newline> tail''))))) \<and>
   sorted_wrt js_less (non_null (map fc_newLineNumber (changes (hd (parseDiffToChunks
     ''diff --git a/f b/f\<newline>@@ -3,3 +3,3 @@\<newline> keep\<newline>-old\<newline>+new\<newline> tail'')))))"
proof -
  let ?t = "''diff --git a/f b/f\<newline>@@ -3,3 +3,3 @@\<newline> keep\<newline>-old\<newline>+new\<newline> tail''"
  have m: "hd (parseDiffToChunks ?t) \<in> set (parseDiffToChunks ?t)"
    by code_simp
  have v: "non_null (map fc_oldLineNumber (changes (hd (parseDiffToChunks ?t)))) =
             [Fin 3, Fin 4, Fin 5]"
    by code_simp
  have w: "non_null (map fc_newLineNumber (changes (hd (parseDiffToChunks ?t)))) =
             [Fin 3, Fin 4, Fin 5]"
    by code_simp
  have safe: "\<forall>x \<in> set [Fin 3, Fin 4, Fin 5]. safe_integer x"
    by (simp add: safe_integer_def bit_width_le)
  have "sorted_wrt js_less (non_null (map fc_oldLineNumber (changes (hd (parseDiffToChunks ?t)))))"
    using line_numbers_strictly_increasing [OF m] safe by (simp only: v)
  moreover
  have "sorted_wrt js_less (non_null (map fc_newLineNumber (changes (hd (parseDiffToChunks ?t)))))"
    using line_numbers_strictly_increasing [OF m] safe by (simp only: w)
  moreover have "safe_integer (Fin 3) \<and> safe_integer (Fin 4) \<and> safe_integer (Fin 5)"
    using safe by simp
  ultimately show ?thesis
    using m v w by blast
qed

text \<open>
  C7, as the code has it.  For every chunk that \<open>parseDiffToChunks\<close> returns and every
  change at index \<open>i\<close> in it, \<open>lineNumber\<close> is the change's \<open>newLineNumber\<close> when that is
  neither \<open>null\<close> nor \<open>0\<close>, otherwise its \<open>oldLineNumber\<close> when that is neither \<open>null\<close> nor
  \<open>0\<close>, otherwise the sum \<open>newStartLine + i\<close> of JavaScript numbers: the operator \<open>||\<close>
  passes over \<open>0\<close> as it passes over \<open>null\<close>.
\<close>

theorem lineNumber_fallback:
  assumes "ch \<in> set (parseDiffToChunks diffText)" and "i < length (changes ch)"
  shows "lineNumber (changes ch ! i) =
           (if truthy (fc_newLineNumber (changes ch ! i))
            then the (fc_newLineNumber (changes ch ! i))
            else if truthy (fc_oldLineNumber (changes ch ! i))
            then the (fc_oldLineNumber (changes ch ! i))
            else js_add (newStartLine ch) (Fin i))"
proof -
  have "\<forall>ch \<in> set (parse_lines (split_nl diffText)).
          \<forall>i < length (changes ch). lineNumber (changes ch ! i) =
           (if truthy (fc_newLineNumber (changes ch ! i))
            then the (fc_newLineNumber (changes ch ! i))
            else if truthy (fc_oldLineNumber (changes ch ! i))
            then the (fc_oldLineNumber (changes ch ! i))
            else js_add (newStartLine ch) (Fin i))"
    by (rule parse_lines_from_createChunk) (simp add: createChunk_lineNumber)
  with assms show ?thesis by (simp add: parseDiffToChunks_def)
qed

text \<open>
  The wording of the specification fails where a line number is \<open>0\<close>.  In the hunk
  \<open>@@ -3 +0 @@\<close> with the lines \<open>-a\<close> and \<open>+b\<close>, the second change has the defined
  \<open>newLineNumber\<close> 0, and its \<open>lineNumber\<close> is 1, the positional fallback.
\<close>

theorem lineNumber_defined_counterexample:
  "fc_newLineNumber (changes (hd (parseDiffToChunks
      ''diff --git a/f b/f\<newline>@@ -3 +0 @@\<newline>-a\<newline>+b'')) ! 1) = Some (Fin 0) \<and>
   lineNumber (changes (hd (parseDiffToChunks
      ''diff --git a/f b/f\<newline>@@ -3 +0 @@\<newline>-a\<newline>+b'')) ! 1) = Fin 1"
  by code_simp

text \<open>The same change, through the theorem: neither number is truthy, so the fallback.\<close>

theorem lineNumber_fallback_witness:
  "hd (parseDiffToChunks ''diff --git a/f b/f\<newline>@@ -3 +0 @@\<newline>-a\<newline>+b'')
     \<in> set (parseDiffToChunks ''diff --git a/f b/f\<newline>@@ -3 +0 @@\<newline>-a\<newline>+b'') \<and>
   1 < length (changes (hd (parseDiffToChunks
      ''diff --git a/f b/f\<newline>@@ -3 +0 @@\<newline>-a\<newline>+b''))) \<and>
   lineNumber (changes (hd (parseDiffToChunks
      ''diff --git a/f b/f\<newline>@@ -3 +0 @@\<newline>-a\<newline>+b'')) ! 1) = js_add (Fin 0) (Fin 1) \<and>
   js_add (Fin 0) (Fin 1) = Fin 1"
proof -
  let ?t = "''diff --git a/f b/f\<newline>@@ -3 +0 @@\<newline>-a\<newline>+b''"
  have m: "hd (parseDiffToChunks ?t) \<in> set (parseDiffToChunks ?t)" by code_simp
  have l: "1 < length (changes (hd (parseDiffToChunks ?t)))" by code_simp
  have n: "fc_newLineNumber (changes (hd (parseDiffToChunks ?t)) ! 1) = Some (Fin 0)" by code_simp
  have s: "newStartLine (hd (parseDiffToChunks ?t)) = Fin 0" by code_simp
  have o: "fc_oldLineNumber (changes (hd (parseDiffToChunks ?t)) ! 1) = None" by code_simp
  have a: "js_add (Fin 0) (Fin 1) = Fin 1" by code_simp
  have "lineNumber (changes (hd (parseDiffToChunks ?t)) ! 1) = js_add (Fin 0) (Fin 1)"
    using lineNumber_fallback [OF m l] unfolding n s o truthy_def by simp
  with m l a show ?thesis by blast
qed

text \<open>
  C8, as the code has it.  While a hunk is open, a line that is not read as a file
  boundary (\<open>diff --git \<close>), as a path line (\<open>--- \<close>, \<open>+++ \<close>) or as a hunk header (\<open>@@\<close>)
  is recorded by its first character: \<open>+\<close> as an added change that takes the new counter
  and applies \<open>++\<close> to it alone, \<open>-\<close> as a deleted change that takes the old counter and
  applies \<open>++\<close> to it alone, a space as a context change that takes both counters and
  applies \<open>++\<close> to both.  Any other line, the empty line included, is skipped: no change
  is recorded and no counter moves.  (\<open>++\<close> is the increment of a JavaScript number: it
  adds one exactly below \<open>2^53\<close>.)
\<close>

theorem code_line_kinds:
  assumes "currentHunk st = Some h"
    and "\<not> startsWith line ''diff --git ''" and "\<not> startsWith line ''--- ''"
    and "\<not> startsWith line ''+++ ''" and "\<not> startsWith line ''@@''"
  shows "step st line =
     (if startsWith line ''+'' then
        st\<lparr> currentHunk := Some (h\<lparr>h_changes := h_changes h @
                  [\<lparr> c_type = Add, c_content = substring line 1,
                     c_oldLineNumber = None,
                     c_newLineNumber = Some (newLineNumber st) \<rparr>]\<rparr>),
            newLineNumber := js_inc (newLineNumber st) \<rparr>
      else if startsWith line ''-'' then
        st\<lparr> currentHunk := Some (h\<lparr>h_changes := h_changes h @
                  [\<lparr> c_type = Del, c_content = substring line 1,
                     c_oldLineNumber = Some (oldLineNumber st),
                     c_newLineNumber = None \<rparr>]\<rparr>),
            oldLineNumber := js_inc (oldLineNumber st) \<rparr>
      else if startsWith line '' '' then
        st\<lparr> currentHunk := Some (h\<lparr>h_changes := h_changes h @
                  [\<lparr> c_type = Normal, c_content = substring line 1,
                     c_oldLineNumber = Some (oldLineNumber st),
                     c_newLineNumber = Some (newLineNumber st) \<rparr>]\<rparr>),
            oldLineNumber := js_inc (oldLineNumber st),
            newLineNumber := js_inc (newLineNumber st) \<rparr>
      else st)"
  using assms by (simp add: step_def code_line_def line_type_def Let_def)

text \<open>
  The wording of the specification fails twice in the state reached after a file boundary and
  the header \<open>@@ -1,2 +1 @@\<close>, where a hunk is open.  The line
  \<open>\ No newline at end of file\<close> starts with another character and leaves the state as it
  is, instead of being recorded as context.  The line \<open>--- drop\<close> starts with \<open>-\<close> and
  leaves the hunk as it is, instead of being recorded as deleted.
\<close>

theorem other_line_counterexample:
  "currentHunk (foldl step init_state [''diff --git a/f b/f'', ''@@ -1,2 +1 @@'']) \<noteq> None \<and>
   step (foldl step init_state [''diff --git a/f b/f'', ''@@ -1,2 +1 @@''])
        (CHR 0x5C # '' No newline at end of file'') =
     foldl step init_state [''diff --git a/f b/f'', ''@@ -1,2 +1 @@''] \<and>
   currentHunk (step (foldl step init_state [''diff --git a/f b/f'', ''@@ -1,2 +1 @@''])
                     ''--- drop'') =
     currentHunk (foldl step init_state [''diff --git a/f b/f'', ''@@ -1,2 +1 @@''])"
  by code_simp

text \<open>In the same state, one line of each kind.\<close>

theorem code_line_kinds_witness:
  "currentHunk (foldl step init_state [''diff --git a/f b/f'', ''@@ -1,2 +1 @@'']) =
     Some \<lparr> h_oldStartLine = Fin 1, h_oldLines = Fin 2, h_newStartLine = Fin 1,
            h_newLines = Fin 1, h_changes = [] \<rparr> \<and>
   \<not> startsWith ''-gone'' ''diff --git '' \<and> \<not> startsWith ''-gone'' ''--- '' \<and>
   \<not> startsWith ''-gone'' ''+++ '' \<and> \<not> startsWith ''-gone'' ''@@'' \<and>
   step (foldl step init_state [''diff --git a/f b/f'', ''@@ -1,2 +1 @@'']) ''-gone'' =
     (foldl step init_state [''diff --git a/f b/f'', ''@@ -1,2 +1 @@''])
       \<lparr> currentHunk := Some \<lparr> h_oldStartLine = Fin 1, h_oldLines = Fin 2,
                               h_newStartLine = Fin 1, h_newLines = Fin 1,
                               h_changes = [\<lparr> c_type = Del, c_content = ''gone'',
                                              c_oldLineNumber = Some (Fin 1),
                                              c_newLineNumber = None \<rparr>] \<rparr>,
         oldLineNumber := Fin 2 \<rparr> \<and>
   step (foldl step init_state [''diff --git a/f b/f'', ''@@ -1,2 +1 @@'']) ''+here'' =
     (foldl step init_state [''diff --git a/f b/f'', ''@@ -1,2 +1 @@''])
       \<lparr> currentHunk := Some \<lparr> h_oldStartLine = Fin 1, h_oldLines = Fin 2,
                               h_newStartLine = Fin 1, h_newLines = Fin 1,
                               h_changes = [\<lparr> c_type = Add, c_content = ''here'',
                                              c_oldLineNumber = None,
                                              c_newLineNumber = Some (Fin 1) \<rparr>] \<rparr>,
         newLineNumber := Fin 2 \<rparr> \<and>
   step (foldl step init_state [''diff --git a/f b/f'', ''@@ -1,2 +1 @@'']) '' same'' =
     (foldl step init_state [''diff --git a/f b/f'', ''@@ -1,2 +1 @@''])
       \<lparr> currentHunk := Some \<lparr> h_oldStartLine = Fin 1, h_oldLines = Fin 2,
                               h_newStartLine = Fin 1, h_newLines = Fin 1,
                               h_changes = [\<lparr> c_type = Normal, c_content = ''same'',
                                              c_oldLineNumber = Some (Fin 1),
                                              c_newLineNumber = Some (Fin 1) \<rparr>] \<rparr>,
         oldLineNumber := Fin 2, newLineNumber := Fin 2 \<rparr> \<and>
   step (foldl step init_state [''diff --git a/f b/f'', ''@@ -1,2 +1 @@'']) [] =
     foldl step init_state [''diff --git a/f b/f'', ''@@ -1,2 +1 @@'']"
proof -
  let ?st = "foldl step init_state [''diff --git a/f b/f'', ''@@ -1,2 +1 @@'']"
  let ?h = "\<lparr> h_oldStartLine = Fin 1, h_oldLines = Fin 2, h_newStartLine = Fin 1,
              h_newLines = Fin 1, h_changes = [] \<rparr>"
  have h: "currentHunk ?st = Some ?h" by code_simp
  have o: "oldLineNumber ?st = Fin 1" by code_simp
  have n: "newLineNumber ?st = Fin 1" by code_simp
  have two: "js_inc (Fin (Suc 0)) = Fin 2" by code_simp
  have d: "\<not> startsWith ''-gone'' ''diff --git ''" "\<not> startsWith ''-gone'' ''--- ''"
          "\<not> startsWith ''-gone'' ''+++ ''" "\<not> startsWith ''-gone'' ''@@''"
    by (simp_all add: startsWith_simps)
  have a: "\<not> startsWith ''+here'' ''diff --git ''" "\<not> startsWith ''+here'' ''--- ''"
          "\<not> startsWith ''+here'' ''+++ ''" "\<not> startsWith ''+here'' ''@@''"
    by (simp_all add: startsWith_simps)
  have c: "\<not> startsWith '' same'' ''diff --git ''" "\<not> startsWith '' same'' ''--- ''"
          "\<not> startsWith '' same'' ''+++ ''" "\<not> startsWith '' same'' ''@@''"
    by (simp_all add: startsWith_simps)
  have e: "\<not> startsWith [] ''diff --git ''" "\<not> startsWith [] ''--- ''"
          "\<not> startsWith [] ''+++ ''" "\<not> startsWith [] ''@@''"
    by (simp_all add: startsWith_simps)
  have "step ?st ''-gone'' =
          ?st\<lparr> currentHunk := Some (?h\<lparr>h_changes := [\<lparr> c_type = Del, c_content = ''gone'',
                   c_oldLineNumber = Some (Fin 1), c_newLineNumber = None \<rparr>]\<rparr>),
               oldLineNumber := Fin 2 \<rparr>"
    using code_line_kinds [OF h d] by (simp add: startsWith_simps substring_def o two del: foldl_Cons)
  moreover have "step ?st ''+here'' =
          ?st\<lparr> currentHunk := Some (?h\<lparr>h_changes := [\<lparr> c_type = Add, c_content = ''here'',
                   c_oldLineNumber = None, c_newLineNumber = Some (Fin 1) \<rparr>]\<rparr>),
               newLineNumber := Fin 2 \<rparr>"
    using code_line_kinds [OF h a] by (simp add: startsWith_simps substring_def n two del: foldl_Cons)
  moreover have "step ?st '' same'' =
          ?st\<lparr> currentHunk := Some (?h\<lparr>h_changes := [\<lparr> c_type = Normal, c_content = ''same'',
                   c_oldLineNumber = Some (Fin 1), c_newLineNumber = Some (Fin 1) \<rparr>]\<rparr>),
               oldLineNumber := Fin 2, newLineNumber := Fin 2 \<rparr>"
    using code_line_kinds [OF h c] by (simp add: startsWith_simps substring_def o n two del: foldl_Cons)
  moreover have "step ?st [] = ?st"
    using code_line_kinds [OF h e] by (simp add: startsWith_simps del: foldl_Cons)
  ultimately show ?thesis
    using h d by (simp del: foldl_Cons)
qed

subsection \<open>An added file with three added lines\<close>

text \<open>
  A diff of one added file with one hunk of three lines that start with \<open>+\<close>, none of
  which is read as a \<open>+++ \<close> path line, and nothing after them, gives one chunk with the
  three added lines.
\<close>

lemma added_file_regular:
  assumes "split_nl diffText =
             [l0, ''--- /dev/null'', ''+++ b/foo.txt'', hdr,
              CHR ''+'' # a, CHR ''+'' # b, CHR ''+'' # c]"
    and "startsWith l0 ''diff --git ''"
    and "hunkMatch hdr \<noteq> None"
    and "\<not> startsWith (CHR ''+'' # a) ''+++ ''"
    and "\<not> startsWith (CHR ''+'' # b) ''+++ ''"
    and "\<not> startsWith (CHR ''+'' # c) ''+++ ''"
  shows "(\<exists>ch. parseDiffToChunks diffText = [ch] \<and>
            fileStatus ch = Added \<and> oldFilePath ch = None \<and> newFilePath ch = Some ''foo.txt'' \<and>
            addedLines (chunk_context ch) = [a, b, c] \<and>
            length (addedLines (chunk_context ch)) = 3 \<and>
            totalChanges (chunk_context ch) = 3 \<and>
            \<not> isSignificant (chunk_context ch)) \<and>
         isSignificant (extractHunkContext cs) = (5 < totalChanges (extractHunkContext cs))"
proof -
  obtain g1 g2 g3 g4 where g: "hunkMatch hdr = Some (g1, g2, g3, g4)"
    using assms(3) by (cases "hunkMatch hdr") auto
  define s1 where "s1 = step init_state l0"
  have s1: "s1 = \<lparr> chunks = [], currentFile = Some \<lparr> f_oldFilePath = None, f_newFilePath = None,
                       f_fileStatus = Modified \<rparr>, currentHunk = None,
                     oldLineNumber = Fin 0, newLineNumber = Fin 0 \<rparr>"
    using assms(2) by (simp add: s1_def step_def init_state_def flush_def)
  define s3 where "s3 = step (step s1 ''--- /dev/null'') ''+++ b/foo.txt''"
  have s3: "s3 = \<lparr> chunks = [], currentFile = Some \<lparr> f_oldFilePath = None,
                       f_newFilePath = Some ''foo.txt'', f_fileStatus = Added \<rparr>,
                     currentHunk = None, oldLineNumber = Fin 0, newLineNumber = Fin 0 \<rparr>"
    by (simp add: s3_def s1 step_def startsWith_simps old_path_line_def new_path_line_def
          substring_def)
  define s4 where "s4 = step s3 hdr"
  have s4: "s4 = \<lparr> chunks = [], currentFile = Some \<lparr> f_oldFilePath = None,
                       f_newFilePath = Some ''foo.txt'', f_fileStatus = Added \<rparr>,
                     currentHunk = Some \<lparr> h_oldStartLine = parseInt g1, h_oldLines = count_of g2,
                               h_newStartLine = parseInt g3, h_newLines = count_of g4,
                               h_changes = [] \<rparr>,
                     oldLineNumber = parseInt g1, newLineNumber = parseInt g3 \<rparr>"
    by (simp add: s4_def step_header [OF g] s3 flush_def)
  define s7 where "s7 = step (step (step s4 (CHR ''+'' # a)) (CHR ''+'' # b)) (CHR ''+'' # c)"
  have s7: "s7 = \<lparr> chunks = [], currentFile = Some \<lparr> f_oldFilePath = None,
                       f_newFilePath = Some ''foo.txt'', f_fileStatus = Added \<rparr>,
                     currentHunk = Some \<lparr> h_oldStartLine = parseInt g1, h_oldLines = count_of g2,
                               h_newStartLine = parseInt g3, h_newLines = count_of g4,
                               h_changes =
                                 [\<lparr> c_type = Add, c_content = a, c_oldLineNumber = None,
                                    c_newLineNumber = Some (parseInt g3) \<rparr>,
                                  \<lparr> c_type = Add, c_content = b, c_oldLineNumber = None,
                                    c_newLineNumber = Some (js_inc (parseInt g3)) \<rparr>,
                                  \<lparr> c_type = Add, c_content = c, c_oldLineNumber = None,
                                    c_newLineNumber = Some (js_inc (js_inc (parseInt g3))) \<rparr>] \<rparr>,
                     oldLineNumber = parseInt g1,
                     newLineNumber = js_inc (js_inc (js_inc (parseInt g3))) \<rparr>"
    using assms(4-6) by (simp add: s7_def s4 step_added)
  have "parseDiffToChunks diffText = flush s7"
    by (simp add: parseDiffToChunks_def parse_lines_def assms(1) s7_def s4_def s3_def s1_def)
  then have "\<exists>ch. parseDiffToChunks diffText = [ch] \<and>
            fileStatus ch = Added \<and> oldFilePath ch = None \<and> newFilePath ch = Some ''foo.txt'' \<and>
            addedLines (chunk_context ch) = [a, b, c] \<and>
            length (addedLines (chunk_context ch)) = 3 \<and>
            totalChanges (chunk_context ch) = 3 \<and>
            \<not> isSignificant (chunk_context ch)"
    by (simp add: s7 flush_def createChunk_def extractHunkContext_def)
  moreover have "isSignificant (extractHunkContext cs) = (5 < totalChanges (extractHunkContext cs))"
    by (simp add: extractHunkContext_def Let_def)
  ultimately show ?thesis by blast
qed

lemma added_file_example:
  "map (\<lambda>ch. (fileStatus ch, newFilePath ch, addedLines (chunk_context ch),
              totalChanges (chunk_context ch), isSignificant (chunk_context ch)))
       (parseDiffToChunks
          ''diff --git a/foo.txt b/foo.txt\<newline>--- /dev/null\<newline>+++ b/foo.txt\<newline>@@ -0,0 +1,3 @@\<newline>+a\<newline>+b\<newline>+c'') =
     [(Added, Some ''foo.txt'', [''a'', ''b'', ''c''], 3, False)]"
  by code_simp

text \<open>
  C10.  The code at a diff of the scenario in which the second added line has the
  content \<open>++ x\<close>: the diff of one added file (\<open>--- /dev/null\<close>, \<open>+++ b/foo.txt\<close>) with the
  hunk \<open>@@ -0,0 +1,3 @@\<close> and the lines \<open>+a\<close>, \<open>+++ x\<close>, \<open>+c\<close>.  The line \<open>+++ x\<close> is
  taken by the branch for the new path, which does not look at the open hunk: the one
  chunk has the status \<open>added\<close>, but two added lines, \<open>totalChanges\<close> 2 and the new path
  \<open>x\<close>.
\<close>

theorem added_line_read_as_path:
  "map (\<lambda>ch. (fileStatus ch, newFilePath ch, addedLines (chunk_context ch),
              totalChanges (chunk_context ch), isSignificant (chunk_context ch)))
       (parseDiffToChunks
          ''diff --git a/foo.txt b/foo.txt\<newline>--- /dev/null\<newline>+++ b/foo.txt\<newline>@@ -0,0 +1,3 @@\<newline>+a\<newline>+++ x\<newline>+c'') =
     [(Added, Some ''x'', [''a'', ''c''], 2, False)]"
  by code_simp

text \<open>
  C4.  The code at a header that does not match, while a hunk is open: the open hunk is
  pushed and then stays open, so it is pushed a second time with the lines that follow.
  With the line \<open>@@ bad header\<close> the input gives two chunks, with the contents \<open>x\<close> and
  \<open>x, y\<close>; without that line it gives the one chunk \<open>x, y\<close>.
\<close>

theorem malformed_header_duplicates_chunk:
  "map (\<lambda>ch. map fc_content (changes ch))
       (parseDiffToChunks
          ''diff --git a/f b/f\<newline>--- a/f\<newline>+++ b/f\<newline>@@ -1 +1,2 @@\<newline>+x\<newline>@@ bad header\<newline>+y'') =
     [[''x''], [''x'', ''y'']] \<and>
   map (\<lambda>ch. map fc_content (changes ch))
       (parseDiffToChunks
          ''diff --git a/f b/f\<newline>--- a/f\<newline>+++ b/f\<newline>@@ -1 +1,2 @@\<newline>+x\<newline>+y'') =
     [[''x'', ''y'']]"
  by code_simp

section \<open>The claims about the signature check\<close>

text \<open>
  C1.  The code at a ping that carries no signature, with the secret of the tests
  configured: the route answers 200 with the \<open>zen\<close> of the payload, for any body and any
  handler of pull requests, while \<open>verifyGitHubSignature\<close>, which the route does not
  register, answers 401 to the same request.
\<close>

theorem route_answers_unsigned_ping:
  "post_github (\<lambda>s. Inr (JObj [(''zen'', JStr ''Design for failure.'')])) handler
     \<lparr> x_hub_signature_256 = None, x_github_event = Some ''ping'', body = b \<rparr> =
     \<lparr> status = 200,
       members = [(''message'', JStr msg_webhook_received),
                  (''zen'', JStr ''Design for failure.'')] \<rparr> \<and>
   verifyGitHubSignature hmac (Some ''test_webhook_secret'')
     \<lparr> x_hub_signature_256 = None, x_github_event = Some ''ping'', body = b \<rparr> =
     ([Console_error log_missing_header],
      Reply \<lparr> status = 401,
              members = [(''error'', JStr msg_unauthorized),
                         (''message'', JStr msg_missing_signature)] \<rparr>)"
  by (simp add: post_github_def read_zen_def verifyGitHubSignature_def falsy_def)

text \<open>
  C2, as the code has it.  Without a secret (the variable unset or empty) the middleware
  checks nothing: it hands every request on, whether or not it carries a signature and
  whatever the signature is.  It does not do so silently: it writes one warning to the
  console, which says that the verification is skipped.
\<close>

theorem no_secret_skips_verification:
  "verifyGitHubSignature hmac None req = ([Console_warn log_no_secret], Next) \<and>
   verifyGitHubSignature hmac (Some []) req = ([Console_warn log_no_secret], Next)"
  by (simp add: verifyGitHubSignature_def falsy_def)

text \<open>
  The wording of the specification says that a request with a signature is never passed
  on without the signature being checked against a secret.  It fails at a request with
  the signature \<open>sha256=bogus\<close> and no secret: the request is handed on, and the console
  holds the warning alone.
\<close>

theorem no_secret_counterexample:
  "verifyGitHubSignature (\<lambda>secret body. 0) None
     \<lparr> x_hub_signature_256 = Some ''sha256=bogus'', x_github_event = Some ''ping'',
       body = ''{}'' \<rparr> = ([Console_warn log_no_secret], Next)"
  by (simp add: verifyGitHubSignature_def falsy_def)

text \<open>
  C3.  The code at the signature of the test for an invalid signature,
  \<open>sha256=invalid_signature\<close> (24 bytes against the 71 of an expected signature), with the
  secret of the tests: \<open>timingSafeEqual\<close> is called and throws, the \<open>catch\<close> prints the
  error and answers 500, for any keyed hash, event and body.
\<close>

theorem length_mismatch_gives_500:
  "verifyGitHubSignature hmac (Some ''test_webhook_secret'')
     \<lparr> x_hub_signature_256 = Some ''sha256=invalid_signature'', x_github_event = e, body = b \<rparr> =
   ([Console_error_with log_verification_error RangeError],
    Reply \<lparr> status = 500,
            members = [(''error'', JStr msg_internal_error),
                       (''message'', JStr msg_signature_failed)] \<rparr>)"
  by (simp add: verifyGitHubSignature_def falsy_def string_of_def timingSafeEqual_def
        length_digest_hex)

end
